theory Spec2Isabelle
  imports Complex_Main "HOL-Library.AList"
begin

section \<open>The per-thread connection pool of db.py\<close>

text \<open>
  The module keeps two dictionaries keyed by thread object, \<open>db_connection_pool\<close> and
  \<open>db_connection_activity\<close>, guarded by one non-reentrant lock. The code is Python 2
  (\<open>isAlive\<close>, \<open>currentThread\<close>): \<open>dict.items()\<close> is a list built before the loop
  starts, so deleting keys inside the loop is allowed. A dictionary is modelled as an
  association list (any order of the list is a possible iteration order), with lookup
  \<open>map_of\<close>, assignment \<open>AList.update\<close> and \<open>del\<close> as \<open>AList.delete\<close>.

  Thread objects and Connection objects are identified by natural numbers. Everything the
  database client and the interpreter decide (the clock, which threads are alive, whether
  \<open>close\<close>, \<open>ping\<close> or \<open>connect\<close> raise) is read from an environment record, one per
  call. Exceptions are values; a call that raises still returns the state it left behind.
\<close>

type_synonym thread = nat
type_synonym conn = nat

datatype exn =
    KeyError
  | IndexError
  | TypeError
  | OperationalError
  | OtherError nat
  | SystemExit int

text \<open>
  Python values as far as the helpers and \<open>dict2obj\<close> look at them. A set is kept as
  the list of its elements in iteration order. \<open>PObj\<close> is a class made by
  \<open>type('dict2obj', (object,), d)\<close>, given by its attributes.
\<close>

datatype pyval =
    PNone
  | PInt int
  | PStr string
  | PTuple "pyval list"
  | PList "pyval list"
  | PSet "pyval list"
  | PFrozenset "pyval list"
  | PDict "(string \<times> pyval) list"
  | PObj "(string \<times> pyval) list"

datatype cursor_class = Cursor | DictCursor

text \<open>
  The keyword arguments of a helper: \<open>connection\<close>, \<open>cursor\<close> (a cursor object, by its
  number) and whatever else the caller passed, which goes on to \<open>cursor.execute\<close>.
\<close>

record kwargs =
  kw_connection :: "conn option"
  kw_cursor :: "nat option"
  kw_rest :: "(string \<times> pyval) list"

text \<open>What one \<open>cursor.execute\<close> produces: the count it returns, and the result set.\<close>

record result_set =
  rs_count :: int
  rs_columns :: "string list"
  rs_rows :: "pyval list list"

record config =
  db_connection_timeout :: real
  db_cursor_class :: cursor_class

record pool_state =
  db_connection_pool :: "(thread \<times> conn) list"
  db_connection_activity :: "(thread \<times> real) list"
  lock_held :: bool
  closed :: "conn list"

text \<open>\<open>closed\<close> lists, in order, the connections on which \<open>close()\<close> has returned.\<close>

record env =
  time_now :: real
  isAlive :: "thread \<Rightarrow> bool"
  close_raises :: "conn \<Rightarrow> exn option"
  ping_raises :: "conn \<Rightarrow> exn option"
  connect_result :: "nat \<Rightarrow> exn + conn"
  truthy :: "conn \<Rightarrow> bool"
  default_cursorclass :: cursor_class
  run_statement :: "pyval list \<Rightarrow> kwargs \<Rightarrow> exn + result_set"

text \<open>
  \<open>connect_result env i\<close> is what the \<open>i\<close>-th call of \<open>MySQLdb.connect\<close> inside one
  \<open>get_connection\<close> does: raise, or return an object; \<open>truthy\<close> is the truth value
  Python gives that object in \<open>if not db_connection\<close> and \<open>while db_connection\<close>.
\<close>

definition init_state :: pool_state where
  "init_state = \<lparr>db_connection_pool = [], db_connection_activity = [],
                 lock_held = False, closed = []\<rparr>"

definition dict_keys :: "('k \<times> 'v) list \<Rightarrow> 'k set" where
  "dict_keys d = set (map fst d)"

text \<open>
  The body shared by both branches of the sweep (lines 53-55 and 59-61):
  \<open>db_connection_pool[th].close(); del db_connection_pool[th]; del db_connection_activity[th]\<close>.
\<close>

definition evict :: "env \<Rightarrow> thread \<Rightarrow> pool_state \<Rightarrow> exn option \<times> pool_state" where
  "evict e th s =
     (case map_of (db_connection_pool s) th of
        None \<Rightarrow> (Some KeyError, s)
      | Some c \<Rightarrow>
          (case close_raises e c of
             Some x \<Rightarrow> (Some x, s)
           | None \<Rightarrow>
               (let s1 = s\<lparr>closed := closed s @ [c]\<rparr>;
                    s2 = s1\<lparr>db_connection_pool := AList.delete th (db_connection_pool s1)\<rparr>
                in if th \<in> dict_keys (db_connection_activity s2)
                   then (None, s2\<lparr>db_connection_activity :=
                                     AList.delete th (db_connection_activity s2)\<rparr>)
                   else (Some KeyError, s2))))"

text \<open>The loop of lines 48-61 over the snapshot \<open>items\<close>; \<open>timeout\<close> is \<open>now - db_connection_timeout\<close>.\<close>

fun sweep :: "env \<Rightarrow> real \<Rightarrow> (thread \<times> real) list \<Rightarrow> pool_state \<Rightarrow> exn option \<times> pool_state" where
  "sweep e timeout [] s = (None, s)"
| "sweep e timeout ((th, thtime) # rest) s =
     (if \<not> isAlive e th then
        (case evict e th s of
           (Some x, s') \<Rightarrow> (Some x, s')
         | (None, s') \<Rightarrow> sweep e timeout rest s')
      else if thtime < timeout then
        (case evict e th s of
           (Some x, s') \<Rightarrow> (Some x, s')
         | (None, s') \<Rightarrow> sweep e timeout rest s')
      else sweep e timeout rest s)"

text \<open>
  Lines 78-83 and 86-91: \<open>MySQLdb.connect\<close>, then \<open>sys.exit(1)\<close> (which raises
  \<open>SystemExit\<close>) on a false result, then the store into the pool.
\<close>

definition connect_and_store :: "env \<Rightarrow> nat \<Rightarrow> thread \<Rightarrow> pool_state \<Rightarrow> (exn + conn) \<times> pool_state" where
  "connect_and_store e i cur s =
     (case connect_result e i of
        Inl x \<Rightarrow> (Inl x, s)
      | Inr c \<Rightarrow>
          if \<not> truthy e c then (Inl (SystemExit 1), s)
          else (Inr c, s\<lparr>db_connection_pool := AList.update cur c (db_connection_pool s)\<rparr>))"

text \<open>
  The loop \<open>while db_connection:\<close> of lines 66-83. It runs again after every replacement,
  so it need not end: the first argument bounds the number of passes, and \<open>None\<close> means
  that the bound was reached. \<open>i\<close> counts the calls of \<open>connect\<close> made so far.
\<close>

fun ping_loop :: "nat \<Rightarrow> env \<Rightarrow> thread \<Rightarrow> nat \<Rightarrow> conn \<Rightarrow> pool_state
                    \<Rightarrow> ((exn + conn) \<times> pool_state) option" where
  "ping_loop 0 e cur i c s = None"
| "ping_loop (Suc fuel) e cur i c s =
     (if \<not> truthy e c then Some (Inr c, s)
      else
        (case ping_raises e c of
           None \<Rightarrow> Some (Inr c, s)
         | Some x \<Rightarrow>
             if x = OperationalError then
               (case connect_and_store e i cur s of
                  (Inl y, s') \<Rightarrow> Some (Inl y, s')
                | (Inr c', s') \<Rightarrow> ping_loop fuel e cur (Suc i) c' s')
             else Some (Inl x, s)))"

text \<open>Lines 64-91: the cached connection, checked, or a new one.\<close>

definition resolve :: "nat \<Rightarrow> env \<Rightarrow> thread \<Rightarrow> pool_state \<Rightarrow> ((exn + conn) \<times> pool_state) option" where
  "resolve fuel e cur s =
     (case map_of (db_connection_pool s) cur of
        Some c \<Rightarrow> ping_loop fuel e cur 0 c s
      | None \<Rightarrow> Some (connect_and_store e 0 cur s))"

datatype 'a outcome = Returned 'a | Raised exn | Blocked

text \<open>
  Lines 93-103, after the sweep: resolve, store the activity, release the lock, return.
  A raise leaves through the \<open>try ... finally: pass\<close>, which releases nothing.
\<close>

definition resolve_and_finish :: "nat \<Rightarrow> env \<Rightarrow> thread \<Rightarrow> pool_state
                                    \<Rightarrow> (conn outcome \<times> pool_state) option" where
  "resolve_and_finish fuel e cur s =
     (case resolve fuel e cur s of
        None \<Rightarrow> None
      | Some (Inl x, s') \<Rightarrow> Some (Raised x, s')
      | Some (Inr c, s') \<Rightarrow>
          Some (Returned c,
                s'\<lparr>db_connection_activity := AList.update cur (time_now e) (db_connection_activity s'),
                   lock_held := False\<rparr>))"

text \<open>
  \<open>get_connection\<close>, called by thread \<open>cur\<close>. \<open>acquire()\<close> on a held lock does not return
  while nobody releases it: calls are atomic here (the lock makes them so), hence a lock
  that is held when a call starts was left held by an earlier call, and the result is
  \<open>Blocked\<close>.
\<close>

definition get_connection :: "nat \<Rightarrow> config \<Rightarrow> env \<Rightarrow> thread \<Rightarrow> pool_state
                                \<Rightarrow> (conn outcome \<times> pool_state) option" where
  "get_connection fuel cfg e cur s =
     (if lock_held s then Some (Blocked, s)
      else
        (let s0 = s\<lparr>lock_held := True\<rparr>;
             now = time_now e;
             timeout = now - db_connection_timeout cfg
         in case sweep e timeout (db_connection_activity s0) s0 of
              (Some x, s1) \<Rightarrow> Some (Raised x, s1)
            | (None, s1) \<Rightarrow> resolve_and_finish fuel e cur s1))"

text \<open>
  \<open>close_connections\<close> (lines 437-444). \<open>_debug\<close> is 0, so the warning and its
  \<open>t.isAlive()\<close> are never evaluated. It takes no lock and changes no dictionary.
\<close>

definition debug :: bool where
  "debug = False"

fun close_all :: "env \<Rightarrow> (thread \<times> conn) list \<Rightarrow> pool_state \<Rightarrow> exn option \<times> pool_state" where
  "close_all e [] s = (None, s)"
| "close_all e ((t, c) # rest) s =
     (let warned = (debug \<and> isAlive e t)
      in case close_raises e c of
           Some x \<Rightarrow> (Some x, s)
         | None \<Rightarrow> close_all e rest (s\<lparr>closed := closed s @ [c]\<rparr>))"

definition close_connections :: "env \<Rightarrow> pool_state \<Rightarrow> exn option \<times> pool_state" where
  "close_connections e s = close_all e (db_connection_pool s) s"

text \<open>The states the module can be in: from empty dictionaries, by any sequence of calls.\<close>

inductive reachable :: "pool_state \<Rightarrow> bool" where
  reach_init: "reachable init_state"
| reach_get: "reachable s \<Longrightarrow> get_connection fuel cfg e cur s = Some (r, s') \<Longrightarrow> reachable s'"
| reach_close: "reachable s \<Longrightarrow> close_connections e s = (r, s') \<Longrightarrow> reachable s'"

text \<open>
  The invariant of the specification: the two dictionaries have the same keys.
  \<open>pool_wf\<close> adds what makes the two association lists dictionaries: no key twice.
\<close>

definition pool_inv :: "pool_state \<Rightarrow> bool" where
  "pool_inv s \<longleftrightarrow>
     (\<forall>th. th \<in> dict_keys (db_connection_activity s) \<longleftrightarrow> th \<in> dict_keys (db_connection_pool s))"

definition pool_wf :: "pool_state \<Rightarrow> bool" where
  "pool_wf s \<longleftrightarrow>
     distinct (map fst (db_connection_pool s)) \<and>
     distinct (map fst (db_connection_activity s)) \<and>
     dict_keys (db_connection_activity s) = dict_keys (db_connection_pool s)"

text \<open>The entries the sweep is after: owner dead, or last activity before \<open>now - timeout\<close>.\<close>

definition stale :: "config \<Rightarrow> env \<Rightarrow> thread \<Rightarrow> real \<Rightarrow> bool" where
  "stale cfg e th thtime \<longleftrightarrow>
     \<not> isAlive e th \<or> thtime < time_now e - db_connection_timeout cfg"

section \<open>dict2obj\<close>

text \<open>
  Lines 268-287. \<open>cls\<close> (the class \<open>top\<close> of the source) starts with the attributes \<open>d\<close> gives the class and is updated
  by one \<open>setattr\<close> for every item; the elements of a tuple, list, set or frozenset go
  through the generator of line 283.
\<close>

function dict2obj :: "(string \<times> pyval) list \<Rightarrow> pyval"
  and dict2obj_loop :: "(string \<times> pyval) list \<Rightarrow> (string \<times> pyval) list \<Rightarrow> (string \<times> pyval) list"
  and dict2obj_elems :: "pyval list \<Rightarrow> pyval list"
where
  "dict2obj d = PObj (dict2obj_loop d d)"
| "dict2obj_loop [] cls = cls"
| "dict2obj_loop ((k, v) # rest) cls =
     dict2obj_loop rest
       (AList.update k
          (case v of
             PDict d' \<Rightarrow> dict2obj d'
           | PTuple xs \<Rightarrow> PTuple (dict2obj_elems xs)
           | PList xs \<Rightarrow> PList (dict2obj_elems xs)
           | PSet xs \<Rightarrow> PSet (dict2obj_elems xs)
           | PFrozenset xs \<Rightarrow> PFrozenset (dict2obj_elems xs)
           | _ \<Rightarrow> v)
          cls)"
| "dict2obj_elems [] = []"
| "dict2obj_elems (sj # xs) =
     (case sj of PDict d' \<Rightarrow> dict2obj d' | _ \<Rightarrow> sj) # dict2obj_elems xs"
  by pat_completeness auto
termination
  by (relation "measure (\<lambda>x. case x of
        Inl d \<Rightarrow> 2 * size (PDict d) + 1
      | Inr (Inl (items, cls)) \<Rightarrow> 2 * size (PDict items)
      | Inr (Inr xs) \<Rightarrow> 2 * size (PList xs))") auto

text \<open>Reading an attribute of the class; \<open>None\<close> stands for AttributeError.\<close>

fun getattr :: "pyval \<Rightarrow> string \<Rightarrow> pyval option" where
  "getattr (PObj attrs) k = map_of attrs k"
| "getattr _ k = None"

text \<open>
  What the specification says the attribute for a value of \<open>d\<close> is: a nested object for a
  mapping, a collection of the same kind with its mappings converted for a collection,
  the value itself otherwise.
\<close>

definition convert_element :: "pyval \<Rightarrow> pyval" where
  "convert_element sj = (case sj of PDict m \<Rightarrow> dict2obj m | _ \<Rightarrow> sj)"

definition attribute_for :: "pyval \<Rightarrow> pyval" where
  "attribute_for v =
     (case v of
        PDict m \<Rightarrow> dict2obj m
      | PTuple xs \<Rightarrow> PTuple (map convert_element xs)
      | PList xs \<Rightarrow> PList (map convert_element xs)
      | PSet xs \<Rightarrow> PSet (map convert_element xs)
      | PFrozenset xs \<Rightarrow> PFrozenset (map convert_element xs)
      | _ \<Rightarrow> v)"

section \<open>Cursors and the query helpers\<close>

text \<open>
  A cursor object: the connection it came from, its class, the rows of the last
  statement that are not fetched yet, and whether it has been closed. Cursor objects
  live in a store indexed by number; \<open>next_cursor\<close> is the number of the next one made.
\<close>

record cursor =
  cursor_conn :: conn
  cursorclass :: cursor_class
  rows_left :: "pyval list"
  cursor_closed :: bool

record world =
  pool :: pool_state
  cursors :: "nat \<Rightarrow> cursor"
  next_cursor :: nat

text \<open>
  The database client, as far as the helpers use it. \<open>Connection.cursor(cursorclass)\<close>
  makes a cursor of the class asked for, or of the client's default class when none is.
  A \<open>Cursor\<close> hands rows out as tuples of the column values, a \<open>DictCursor\<close> as
  dictionaries from column name to value. \<open>fetchone\<close> returns \<open>None\<close> after the last row.
\<close>

definition conn_cursor :: "env \<Rightarrow> conn \<Rightarrow> cursor_class option \<Rightarrow> world \<Rightarrow> nat \<times> world" where
  "conn_cursor e c req w =
     (let k = next_cursor w;
          new = \<lparr>cursor_conn = c,
                 cursorclass = (case req of None \<Rightarrow> default_cursorclass e | Some cc \<Rightarrow> cc),
                 rows_left = [], cursor_closed = False\<rparr>
      in (k, w\<lparr>cursors := (cursors w)(k := new), next_cursor := Suc k\<rparr>))"

definition shape_row :: "cursor_class \<Rightarrow> string list \<Rightarrow> pyval list \<Rightarrow> pyval" where
  "shape_row cc cols vals =
     (case cc of Cursor \<Rightarrow> PTuple vals | DictCursor \<Rightarrow> PDict (zip cols vals))"

definition cursor_execute :: "env \<Rightarrow> nat \<Rightarrow> pyval list \<Rightarrow> kwargs \<Rightarrow> world \<Rightarrow> (exn + int) \<times> world" where
  "cursor_execute e k args kw w =
     (case run_statement e args kw of
        Inl x \<Rightarrow> (Inl x, w)
      | Inr rs \<Rightarrow>
          (let cu = cursors w k;
               shaped = map (shape_row (cursorclass cu) (rs_columns rs)) (rs_rows rs)
           in (Inr (rs_count rs), w\<lparr>cursors := (cursors w)(k := cu\<lparr>rows_left := shaped\<rparr>)\<rparr>)))"

definition cursor_fetchone :: "nat \<Rightarrow> world \<Rightarrow> pyval \<times> world" where
  "cursor_fetchone k w =
     (let cu = cursors w k
      in case rows_left cu of
           [] \<Rightarrow> (PNone, w)
         | row # rest \<Rightarrow> (row, w\<lparr>cursors := (cursors w)(k := cu\<lparr>rows_left := rest\<rparr>)\<rparr>))"

definition cursor_close :: "nat \<Rightarrow> world \<Rightarrow> world" where
  "cursor_close k w = w\<lparr>cursors := (cursors w)(k := (cursors w k)\<lparr>cursor_closed := True\<rparr>)\<rparr>"

definition no_kwargs :: kwargs where
  "no_kwargs = \<lparr>kw_connection = None, kw_cursor = None, kw_rest = []\<rparr>"

text \<open>
  The block "get a cursor", which every helper repeats (lines 112-120 in \<open>execute\<close>).
  The only difference between the helpers is the \<open>cursorclass\<close> argument \<open>req\<close>. The
  result is \<open>local_cursor\<close>, \<open>cursor\<close> and the keyword arguments that are left.
\<close>

definition get_cursor :: "nat \<Rightarrow> config \<Rightarrow> env \<Rightarrow> thread \<Rightarrow> cursor_class option \<Rightarrow> kwargs \<Rightarrow> world
                            \<Rightarrow> ((nat option \<times> nat \<times> kwargs) outcome \<times> world) option" where
  "get_cursor fuel cfg e cur req kw w =
     (case kw_connection kw of
        Some c \<Rightarrow>
          (let (k, w') = conn_cursor e c req w
           in Some (Returned (Some k, k, kw\<lparr>kw_connection := None\<rparr>), w'))
      | None \<Rightarrow>
          (case kw_cursor kw of
             Some k \<Rightarrow> Some (Returned (None, k, kw\<lparr>kw_cursor := None\<rparr>), w)
           | None \<Rightarrow>
               (case get_connection fuel cfg e cur (pool w) of
                  None \<Rightarrow> None
                | Some (Blocked, p) \<Rightarrow> Some (Blocked, w\<lparr>pool := p\<rparr>)
                | Some (Raised x, p) \<Rightarrow> Some (Raised x, w\<lparr>pool := p\<rparr>)
                | Some (Returned c, p) \<Rightarrow>
                    (let (k, w') = conn_cursor e c req (w\<lparr>pool := p\<rparr>)
                     in Some (Returned (Some k, k, kw), w')))))"

text \<open>The closing lines of every helper: \<open>if local_cursor: local_cursor.close()\<close>.\<close>

definition close_local :: "nat option \<Rightarrow> world \<Rightarrow> world" where
  "close_local local_cursor w =
     (case local_cursor of None \<Rightarrow> w | Some k \<Rightarrow> cursor_close k w)"

text \<open>Running the rest of a helper once the cursor is there; a raise ends the helper.\<close>

definition then_run :: "('c outcome \<times> world) option \<Rightarrow> ('c \<Rightarrow> world \<Rightarrow> (exn + 'a) \<times> world)
                          \<Rightarrow> ('a outcome \<times> world) option" where
  "then_run r body =
     (case r of
        None \<Rightarrow> None
      | Some (Blocked, w) \<Rightarrow> Some (Blocked, w)
      | Some (Raised x, w) \<Rightarrow> Some (Raised x, w)
      | Some (Returned c, w) \<Rightarrow>
          (case body c w of
             (Inl x, w') \<Rightarrow> Some (Raised x, w')
           | (Inr v, w') \<Rightarrow> Some (Returned v, w')))"

text \<open>\<open>execute\<close>, lines 123-131.\<close>

definition execute_body :: "env \<Rightarrow> pyval list \<Rightarrow> nat option \<times> nat \<times> kwargs \<Rightarrow> world \<Rightarrow> (exn + int) \<times> world" where
  "execute_body e args = (\<lambda>(local_cursor, cursor, kw) w.
     case cursor_execute e cursor args kw w of
       (Inl x, w1) \<Rightarrow> (Inl x, w1)
     | (Inr rslt, w1) \<Rightarrow> (Inr rslt, close_local local_cursor w1))"

definition execute :: "nat \<Rightarrow> config \<Rightarrow> env \<Rightarrow> thread \<Rightarrow> pyval list \<Rightarrow> kwargs \<Rightarrow> world
                         \<Rightarrow> (int outcome \<times> world) option" where
  "execute fuel cfg e cur args kw w =
     then_run (get_cursor fuel cfg e cur (Some (db_cursor_class cfg)) kw w) (execute_body e args)"

text \<open>\<open>fetch_one\<close>, lines 151-162.\<close>

definition fetch_one_body :: "env \<Rightarrow> pyval list \<Rightarrow> nat option \<times> nat \<times> kwargs \<Rightarrow> world \<Rightarrow> (exn + pyval) \<times> world" where
  "fetch_one_body e args = (\<lambda>(local_cursor, cursor, kw) w.
     case cursor_execute e cursor args kw w of
       (Inl x, w1) \<Rightarrow> (Inl x, w1)
     | (Inr count, w1) \<Rightarrow>
         (let (rslt, w2) = cursor_fetchone cursor w1
          in (Inr rslt, close_local local_cursor w2)))"

definition fetch_one :: "nat \<Rightarrow> config \<Rightarrow> env \<Rightarrow> thread \<Rightarrow> pyval list \<Rightarrow> kwargs \<Rightarrow> world
                           \<Rightarrow> (pyval outcome \<times> world) option" where
  "fetch_one fuel cfg e cur args kw w =
     then_run (get_cursor fuel cfg e cur (Some (db_cursor_class cfg)) kw w) (fetch_one_body e args)"

text \<open>
  The loop \<open>for i in range(count): row = cursor.fetchone(); rslt.append(row)\<close>; the first
  argument is the number of passes left.
\<close>

fun fetch_loop :: "nat \<Rightarrow> nat \<Rightarrow> pyval list \<Rightarrow> world \<Rightarrow> pyval list \<times> world" where
  "fetch_loop 0 cursor rslt w = (rslt, w)"
| "fetch_loop (Suc n) cursor rslt w =
     (let (row, w') = cursor_fetchone cursor w
      in fetch_loop n cursor (rslt @ [row]) w')"

text \<open>\<open>fetch_all\<close>, lines 182-197; \<open>range(count)\<close> is empty for a negative count.\<close>

definition fetch_all_body :: "env \<Rightarrow> pyval list \<Rightarrow> nat option \<times> nat \<times> kwargs \<Rightarrow> world \<Rightarrow> (exn + pyval list) \<times> world" where
  "fetch_all_body e args = (\<lambda>(local_cursor, cursor, kw) w.
     case cursor_execute e cursor args kw w of
       (Inl x, w1) \<Rightarrow> (Inl x, w1)
     | (Inr count, w1) \<Rightarrow>
         (let (rslt, w2) = fetch_loop (nat count) cursor [] w1
          in (Inr rslt, close_local local_cursor w2)))"

definition fetch_all :: "nat \<Rightarrow> config \<Rightarrow> env \<Rightarrow> thread \<Rightarrow> pyval list \<Rightarrow> kwargs \<Rightarrow> world
                           \<Rightarrow> (pyval list outcome \<times> world) option" where
  "fetch_all fuel cfg e cur args kw w =
     then_run (get_cursor fuel cfg e cur (Some (db_cursor_class cfg)) kw w) (fetch_all_body e args)"

text \<open>\<open>fetch_n\<close>, lines 339-356.\<close>

definition fetch_n_body :: "int \<Rightarrow> env \<Rightarrow> pyval list \<Rightarrow> nat option \<times> nat \<times> kwargs \<Rightarrow> world \<Rightarrow> (exn + pyval list) \<times> world" where
  "fetch_n_body n e args = (\<lambda>(local_cursor, cursor, kw) w.
     case cursor_execute e cursor args kw w of
       (Inl x, w1) \<Rightarrow> (Inl x, w1)
     | (Inr count, w1) \<Rightarrow>
         (let count' = (if count > n then n else count);
              (rslt, w2) = fetch_loop (nat count') cursor [] w1
          in (Inr rslt, close_local local_cursor w2)))"

definition fetch_n :: "nat \<Rightarrow> config \<Rightarrow> env \<Rightarrow> thread \<Rightarrow> int \<Rightarrow> pyval list \<Rightarrow> kwargs \<Rightarrow> world
                         \<Rightarrow> (pyval list outcome \<times> world) option" where
  "fetch_n fuel cfg e cur n args kw w =
     then_run (get_cursor fuel cfg e cur (Some (db_cursor_class cfg)) kw w) (fetch_n_body n e args)"

text \<open>\<open>len(row)\<close> and \<open>row[0]\<close>; the keys of a row dictionary are column names, never 0.\<close>

fun py_len :: "pyval \<Rightarrow> exn + nat" where
  "py_len (PStr s) = Inr (length s)"
| "py_len (PTuple xs) = Inr (length xs)"
| "py_len (PList xs) = Inr (length xs)"
| "py_len (PSet xs) = Inr (length xs)"
| "py_len (PFrozenset xs) = Inr (length xs)"
| "py_len (PDict d) = Inr (length d)"
| "py_len _ = Inl TypeError"

fun py_item0 :: "pyval \<Rightarrow> exn + pyval" where
  "py_item0 (PStr s) = (case s of [] \<Rightarrow> Inl IndexError | ch # _ \<Rightarrow> Inr (PStr [ch]))"
| "py_item0 (PTuple xs) = (case xs of [] \<Rightarrow> Inl IndexError | x # _ \<Rightarrow> Inr x)"
| "py_item0 (PList xs) = (case xs of [] \<Rightarrow> Inl IndexError | x # _ \<Rightarrow> Inr x)"
| "py_item0 (PDict d) = Inl KeyError"
| "py_item0 _ = Inl TypeError"

text \<open>Lines 383-386: \<open>if len(row) == 1: value = row[0]\<close>, \<open>else: value = row\<close>.\<close>

definition row_value :: "pyval \<Rightarrow> exn + pyval" where
  "row_value row =
     (case py_len row of
        Inl x \<Rightarrow> Inl x
      | Inr l \<Rightarrow> if l = 1 then py_item0 row else Inr row)"

text \<open>\<open>fetch_value\<close>, lines 376-394; its \<open>cursor.execute\<close> gets the positional arguments only.\<close>

definition fetch_value_body :: "env \<Rightarrow> pyval list \<Rightarrow> nat option \<times> nat \<times> kwargs \<Rightarrow> world \<Rightarrow> (exn + pyval) \<times> world" where
  "fetch_value_body e args = (\<lambda>(local_cursor, cursor, kw) w.
     case cursor_execute e cursor args no_kwargs w of
       (Inl x, w1) \<Rightarrow> (Inl x, w1)
     | (Inr count, w1) \<Rightarrow>
         if count = 0 then (Inr PNone, close_local local_cursor w1)
         else
           (let (row, w2) = cursor_fetchone cursor w1
            in case row_value row of
                 Inl x \<Rightarrow> (Inl x, w2)
               | Inr v \<Rightarrow> (Inr v, close_local local_cursor w2)))"

definition fetch_value :: "nat \<Rightarrow> config \<Rightarrow> env \<Rightarrow> thread \<Rightarrow> pyval list \<Rightarrow> kwargs \<Rightarrow> world
                             \<Rightarrow> (pyval outcome \<times> world) option" where
  "fetch_value fuel cfg e cur args kw w =
     then_run (get_cursor fuel cfg e cur None kw w) (fetch_value_body e args)"

text \<open>The loop of lines 418-426.\<close>

fun value_loop :: "nat \<Rightarrow> nat \<Rightarrow> pyval list \<Rightarrow> world \<Rightarrow> (exn + pyval list) \<times> world" where
  "value_loop 0 cursor valueList w = (Inr valueList, w)"
| "value_loop (Suc n) cursor valueList w =
     (let (row, w') = cursor_fetchone cursor w
      in case row_value row of
           Inl x \<Rightarrow> (Inl x, w')
         | Inr v \<Rightarrow> value_loop n cursor (valueList @ [v]) w')"

text \<open>\<open>fetch_values\<close>, lines 414-433.\<close>

definition fetch_values_body :: "env \<Rightarrow> pyval list \<Rightarrow> nat option \<times> nat \<times> kwargs \<Rightarrow> world \<Rightarrow> (exn + pyval list) \<times> world" where
  "fetch_values_body e args = (\<lambda>(local_cursor, cursor, kw) w.
     case cursor_execute e cursor args no_kwargs w of
       (Inl x, w1) \<Rightarrow> (Inl x, w1)
     | (Inr count, w1) \<Rightarrow>
         (case value_loop (nat count) cursor [] w1 of
            (Inl x, w2) \<Rightarrow> (Inl x, w2)
          | (Inr valueList, w2) \<Rightarrow> (Inr valueList, close_local local_cursor w2)))"

definition fetch_values :: "nat \<Rightarrow> config \<Rightarrow> env \<Rightarrow> thread \<Rightarrow> pyval list \<Rightarrow> kwargs \<Rightarrow> world
                              \<Rightarrow> (pyval list outcome \<times> world) option" where
  "fetch_values fuel cfg e cur args kw w =
     then_run (get_cursor fuel cfg e cur None kw w) (fetch_values_body e args)"

text \<open>
  The three generators, run by a consumer that takes every element: the result is the
  list of the values yielded, in order. (A consumer that stops early leaves the generator
  suspended inside its loop; that is not modelled.)
  \<open>yield_rows\<close>, lines 218-229, \<open>yield_values\<close>, lines 250-265, and \<open>yield_objects\<close>,
  lines 308-319.
\<close>

definition yield_rows :: "nat \<Rightarrow> config \<Rightarrow> env \<Rightarrow> thread \<Rightarrow> pyval list \<Rightarrow> kwargs \<Rightarrow> world
                            \<Rightarrow> (pyval list outcome \<times> world) option" where
  "yield_rows fuel cfg e cur args kw w =
     then_run (get_cursor fuel cfg e cur (Some (db_cursor_class cfg)) kw w) (fetch_all_body e args)"

definition yield_values_body :: "env \<Rightarrow> pyval list \<Rightarrow> nat option \<times> nat \<times> kwargs \<Rightarrow> world \<Rightarrow> (exn + pyval list) \<times> world" where
  "yield_values_body e args = (\<lambda>(local_cursor, cursor, kw) w.
     case cursor_execute e cursor args kw w of
       (Inl x, w1) \<Rightarrow> (Inl x, w1)
     | (Inr count, w1) \<Rightarrow>
         (case value_loop (nat count) cursor [] w1 of
            (Inl x, w2) \<Rightarrow> (Inl x, w2)
          | (Inr values, w2) \<Rightarrow> (Inr values, close_local local_cursor w2)))"

definition yield_values :: "nat \<Rightarrow> config \<Rightarrow> env \<Rightarrow> thread \<Rightarrow> pyval list \<Rightarrow> kwargs \<Rightarrow> world
                              \<Rightarrow> (pyval list outcome \<times> world) option" where
  "yield_values fuel cfg e cur args kw w =
     then_run (get_cursor fuel cfg e cur None kw w) (yield_values_body e args)"

text \<open>\<open>dict2obj(row)\<close> for a row of any shape: \<open>type(name, bases, d)\<close> wants a dictionary.\<close>

definition object_of_row :: "pyval \<Rightarrow> exn + pyval" where
  "object_of_row row = (case row of PDict d \<Rightarrow> Inr (dict2obj d) | _ \<Rightarrow> Inl TypeError)"

fun object_loop :: "nat \<Rightarrow> nat \<Rightarrow> pyval list \<Rightarrow> world \<Rightarrow> (exn + pyval list) \<times> world" where
  "object_loop 0 cursor objs w = (Inr objs, w)"
| "object_loop (Suc n) cursor objs w =
     (let (row, w') = cursor_fetchone cursor w
      in case object_of_row row of
           Inl x \<Rightarrow> (Inl x, w')
         | Inr v \<Rightarrow> object_loop n cursor (objs @ [v]) w')"

definition yield_objects_body :: "env \<Rightarrow> pyval list \<Rightarrow> nat option \<times> nat \<times> kwargs \<Rightarrow> world \<Rightarrow> (exn + pyval list) \<times> world" where
  "yield_objects_body e args = (\<lambda>(local_cursor, cursor, kw) w.
     case cursor_execute e cursor args kw w of
       (Inl x, w1) \<Rightarrow> (Inl x, w1)
     | (Inr count, w1) \<Rightarrow>
         (case object_loop (nat count) cursor [] w1 of
            (Inl x, w2) \<Rightarrow> (Inl x, w2)
          | (Inr objs, w2) \<Rightarrow> (Inr objs, close_local local_cursor w2)))"

definition yield_objects :: "nat \<Rightarrow> config \<Rightarrow> env \<Rightarrow> thread \<Rightarrow> pyval list \<Rightarrow> kwargs \<Rightarrow> world
                               \<Rightarrow> (pyval list outcome \<times> world) option" where
  "yield_objects fuel cfg e cur args kw w =
     then_run (get_cursor fuel cfg e cur (Some (db_cursor_class cfg)) kw w) (yield_objects_body e args)"

text \<open>
  The cursor is locally owned when the helper made it: from the \<open>connection\<close> argument,
  or, with neither \<open>connection\<close> nor \<open>cursor\<close> given, from the pooled connection.
\<close>

definition locally_owned :: "kwargs \<Rightarrow> bool" where
  "locally_owned kw \<longleftrightarrow> kw_connection kw \<noteq> None \<or> kw_cursor kw = None"

text \<open>
  The single-column rule in the specification's words, on the column values of a row:
  one column gives that column's value, otherwise the whole (positional) row.
\<close>

definition scalar_or_row :: "pyval list \<Rightarrow> pyval" where
  "scalar_or_row vals = (if length vals = 1 then hd vals else PTuple vals)"

text \<open>Two worlds with the same cursors made, each of the same class: what the statements
  of a helper after "get a cursor" preserve.\<close>

definition same_classes :: "world \<Rightarrow> world \<Rightarrow> bool" where
  "same_classes w w' \<longleftrightarrow> next_cursor w' = next_cursor w \<and>
     (\<forall>k. cursorclass (cursors w' k) = cursorclass (cursors w k))"

text \<open>
  Reading the result of a helper: whether it returned normally or raised, and the cursor
  object it made (the one numbered \<open>next_cursor w\<close> of the starting world), as it is at the end.
\<close>

definition returned :: "('a outcome \<times> world) option \<Rightarrow> bool" where
  "returned res = (case res of Some (Returned v, w') \<Rightarrow> True | _ \<Rightarrow> False)"

definition raised :: "('a outcome \<times> world) option \<Rightarrow> bool" where
  "raised res = (case res of Some (Raised x, w') \<Rightarrow> True | _ \<Rightarrow> False)"

definition made_cursor :: "world \<Rightarrow> ('a outcome \<times> world) option \<Rightarrow> cursor option" where
  "made_cursor w res =
     (case res of
        None \<Rightarrow> None
      | Some (r, w') \<Rightarrow>
          if next_cursor w' = next_cursor w then None else Some (cursors w' (next_cursor w)))"

text \<open>
  The calls in which the block "get a cursor" makes one: a \<open>connection\<close> argument, or no
  \<open>cursor\<close> argument and a \<open>get_connection\<close> that returns.
\<close>

definition makes_cursor :: "nat \<Rightarrow> config \<Rightarrow> env \<Rightarrow> thread \<Rightarrow> kwargs \<Rightarrow> world \<Rightarrow> bool" where
  "makes_cursor fuel cfg e cur kw w \<longleftrightarrow>
     kw_connection kw \<noteq> None \<or>
     (kw_cursor kw = None \<and>
      (case get_connection fuel cfg e cur (pool w) of
         Some (Returned c, p) \<Rightarrow> True
       | _ \<Rightarrow> False))"

section \<open>Concrete inputs\<close>

text \<open>
  A pool with three threads at time 1000 and the default timeout of 600 seconds: thread 1
  has been idle since time 0, thread 2 is alive and recent, thread 3 is dead. The
  statement returns three rows of the test table.
\<close>

definition example_config :: config where
  "example_config = \<lparr>db_connection_timeout = 600, db_cursor_class = DictCursor\<rparr>"

definition example_result :: result_set where
  "example_result = \<lparr>rs_count = 3, rs_columns = [''row_int'', ''row_str''],
     rs_rows = [[PInt 100, PStr ''a''], [PInt 110, PStr ''aa''], [PInt 111, PStr ''aaa'']]\<rparr>"

definition example_env :: env where
  "example_env = \<lparr>time_now = 1000, isAlive = (\<lambda>th. th \<noteq> 3),
     close_raises = (\<lambda>c. None), ping_raises = (\<lambda>c. None),
     connect_result = (\<lambda>i. Inr (100 + i)), truthy = (\<lambda>c. True),
     default_cursorclass = Cursor,
     run_statement = (\<lambda>args kw. Inr example_result)\<rparr>"

definition example_pool :: pool_state where
  "example_pool = \<lparr>db_connection_pool = [(1, 10), (2, 20), (3, 30)],
     db_connection_activity = [(1, 0), (2, 950), (3, 990)],
     lock_held = False, closed = []\<rparr>"

definition example_world :: world where
  "example_world = \<lparr>pool = example_pool,
     cursors = (\<lambda>k. \<lparr>cursor_conn = 0, cursorclass = Cursor, rows_left = [], cursor_closed = False\<rparr>),
     next_cursor = 0\<rparr>"

text \<open>
  Variants: a statement that fails, a one-column result, an empty result, the world after
  \<open>connection.cursor\<close> made cursor 0 from connection 5, a \<open>close()\<close> that fails.
\<close>

definition failing_env :: env where
  "failing_env = example_env\<lparr>run_statement := (\<lambda>args kw. Inl (OtherError 1064))\<rparr>"

definition one_column_result :: result_set where
  "one_column_result = \<lparr>rs_count = 2, rs_columns = [''row_int''],
     rs_rows = [[PInt 100], [PInt 110]]\<rparr>"

definition one_column_env :: env where
  "one_column_env = example_env\<lparr>run_statement := (\<lambda>args kw. Inr one_column_result)\<rparr>"

definition empty_result :: result_set where
  "empty_result = \<lparr>rs_count = 0, rs_columns = [''row_int''], rs_rows = []\<rparr>"

definition empty_env :: env where
  "empty_env = example_env\<lparr>run_statement := (\<lambda>args kw. Inr empty_result)\<rparr>"

definition made_by_connection :: "cursor_class \<Rightarrow> world" where
  "made_by_connection cc =
     example_world\<lparr>cursors := (cursors example_world)
                       (0 := \<lparr>cursor_conn = 5, cursorclass = cc, rows_left = [], cursor_closed = False\<rparr>),
                   next_cursor := Suc 0\<rparr>"

definition select_args :: "pyval list" where
  "select_args = [PStr ''select * from TestTable'']"


definition later_env :: env where
  "later_env = example_env\<lparr>time_now := 1500\<rparr>"

definition after_first_call :: pool_state where
  "after_first_call = \<lparr>db_connection_pool = [(1, 100)], db_connection_activity = [(1, 1000)],
     lock_held = False, closed = []\<rparr>"

definition example_row :: "(string \<times> pyval) list" where
  "example_row = [(''row_int'', PInt 100),
     (''tags'', PList [PDict [(''a'', PInt 1)], PInt 2]),
     (''nested'', PDict [(''x'', PStr ''y'')])]"

definition with_cursor :: "nat \<Rightarrow> kwargs" where
  "with_cursor k = \<lparr>kw_connection = None, kw_cursor = Some k, kw_rest = []\<rparr>"

definition with_connection :: "conn \<Rightarrow> kwargs" where
  "with_connection c = \<lparr>kw_connection = Some c, kw_cursor = None, kw_rest = []\<rparr>"

section \<open>Properties\<close>

lemma map_of_in_keys: "map_of d k = Some v \<Longrightarrow> k \<in> dict_keys d"
  by (auto simp: dict_keys_def dest: map_of_SomeD intro: rev_image_eqI)

lemma keys_delete: "dict_keys (AList.delete k d) = dict_keys d - {k}"
  by (auto simp: dict_keys_def AList.delete_eq)

lemma keys_update: "dict_keys (AList.update k v d) = insert k (dict_keys d)"
  by (simp add: dict_keys_def dom_update)

lemma evict_NoneD:
  assumes "evict e th s = (None, s')"
  shows "\<exists>c. map_of (db_connection_pool s) th = Some c \<and> close_raises e c = None \<and>
             th \<in> dict_keys (db_connection_activity s) \<and>
             s' = s\<lparr>closed := closed s @ [c],
                    db_connection_pool := AList.delete th (db_connection_pool s),
                    db_connection_activity := AList.delete th (db_connection_activity s)\<rparr>"
  using assms by (auto simp: evict_def Let_def split: option.splits if_splits)

lemma evict_mono:
  assumes "evict e th s = (r, s')"
  shows "dict_keys (db_connection_pool s') \<subseteq> dict_keys (db_connection_pool s)"
    and "dict_keys (db_connection_activity s') \<subseteq> dict_keys (db_connection_activity s)"
    and "set (closed s) \<subseteq> set (closed s')"
    and "lock_held s' = lock_held s"
  using assms
  by (auto simp: evict_def Let_def dict_keys_def AList.delete_eq split: option.splits if_splits)

lemma sweep_Cons:
  "sweep e t ((th, thtime) # rest) s =
     (if \<not> isAlive e th \<or> thtime < t
      then (case evict e th s of (Some x, s') \<Rightarrow> (Some x, s') | (None, s') \<Rightarrow> sweep e t rest s')
      else sweep e t rest s)"
  by simp

declare sweep.simps(2) [simp del]

lemma sweep_mono:
  assumes "sweep e t items s = (r, s')"
  shows "dict_keys (db_connection_pool s') \<subseteq> dict_keys (db_connection_pool s) \<and>
         dict_keys (db_connection_activity s') \<subseteq> dict_keys (db_connection_activity s) \<and>
         set (closed s) \<subseteq> set (closed s') \<and> lock_held s' = lock_held s"
  using assms
proof (induction items arbitrary: s)
  case Nil
  then show ?case by simp
next
  case (Cons a items)
  obtain th thtime where a: "a = (th, thtime)" by (cases a)
  show ?case
  proof (cases "\<not> isAlive e th \<or> thtime < t")
    case False
    with Cons a show ?thesis by (simp add: sweep_Cons)
  next
    case True
    obtain r1 s1 where ev: "evict e th s = (r1, s1)" by (cases "evict e th s")
    show ?thesis
    proof (cases r1)
      case None
      with Cons.prems a True ev have "sweep e t items s1 = (r, s')" by (simp add: sweep_Cons)
      from Cons.IH[OF this] evict_mono[OF ev] show ?thesis by auto
    next
      case (Some x)
      with Cons.prems a True ev have "s' = s1" by (simp add: sweep_Cons)
      with evict_mono[OF ev] show ?thesis by auto
    qed
  qed
qed

lemma sweep_evicts:
  assumes "sweep e t items s = (None, s')"
    and "(th, thtime) \<in> set items"
    and "\<not> isAlive e th \<or> thtime < t"
  shows "th \<notin> dict_keys (db_connection_pool s') \<and>
         th \<notin> dict_keys (db_connection_activity s') \<and>
         (\<exists>c. map_of (db_connection_pool s) th = Some c \<and> c \<in> set (closed s'))"
  using assms
proof (induction items arbitrary: s)
  case Nil
  then show ?case by simp
next
  case (Cons a items)
  obtain th1 t1 where a: "a = (th1, t1)" by (cases a)
  show ?case
  proof (cases "\<not> isAlive e th1 \<or> t1 < t")
    case False
    with Cons.prems a have sw: "sweep e t items s = (None, s')" and "(th, thtime) \<in> set items"
      by (auto simp: sweep_Cons)
    from Cons.IH[OF this Cons.prems(3)] show ?thesis .
  next
    case True
    obtain r1 s1 where ev: "evict e th1 s = (r1, s1)" by (cases "evict e th1 s")
    with Cons.prems(1) a True have r1: "r1 = None" and sw: "sweep e t items s1 = (None, s')"
      by (auto simp: sweep_Cons split: option.splits)
    from evict_NoneD[OF ev[unfolded r1]] obtain c where
      c: "map_of (db_connection_pool s) th1 = Some c"
      and s1: "s1 = s\<lparr>closed := closed s @ [c],
                    db_connection_pool := AList.delete th1 (db_connection_pool s),
                    db_connection_activity := AList.delete th1 (db_connection_activity s)\<rparr>"
      by blast
    note m = sweep_mono[OF sw]
    show ?thesis
    proof (cases "th = th1")
      case True
      have "th1 \<notin> dict_keys (db_connection_pool s1)" "th1 \<notin> dict_keys (db_connection_activity s1)"
        "c \<in> set (closed s1)"
        using s1 by (auto simp: dict_keys_def AList.delete_eq)
      with m True c show ?thesis by auto
    next
      case False
      with Cons.prems(2) a have "(th, thtime) \<in> set items" by auto
      from Cons.IH[OF sw this Cons.prems(3)] False s1 show ?thesis by auto
    qed
  qed
qed

lemma sweep_keeps:
  assumes "sweep e t items s = (r, s')"
    and "\<forall>thtime. (th, thtime) \<in> set items \<longrightarrow> isAlive e th \<and> \<not> thtime < t"
  shows "map_of (db_connection_pool s') th = map_of (db_connection_pool s) th \<and>
         map_of (db_connection_activity s') th = map_of (db_connection_activity s) th"
  using assms
proof (induction items arbitrary: s)
  case Nil
  then show ?case by simp
next
  case (Cons a items)
  obtain th1 t1 where a: "a = (th1, t1)" by (cases a)
  show ?case
  proof (cases "\<not> isAlive e th1 \<or> t1 < t")
    case False
    with Cons.prems a have sw: "sweep e t items s = (r, s')" by (simp add: sweep_Cons)
    from Cons.IH[OF sw] Cons.prems(2) show ?thesis by auto
  next
    case True
    with Cons.prems(2) a have ne: "th \<noteq> th1" by auto
    obtain r1 s1 where ev: "evict e th1 s = (r1, s1)" by (cases "evict e th1 s")
    have k1: "map_of (db_connection_pool s1) th = map_of (db_connection_pool s) th \<and>
         map_of (db_connection_activity s1) th = map_of (db_connection_activity s) th"
      using ev ne by (auto simp: evict_def Let_def split: option.splits if_splits)
    show ?thesis
    proof (cases r1)
      case None
      with Cons.prems(1) a True ev have sw: "sweep e t items s1 = (r, s')" by (simp add: sweep_Cons)
      from Cons.IH[OF sw] Cons.prems(2) k1 show ?thesis by auto
    next
      case (Some x)
      with Cons.prems(1) a True ev have "s' = s1" by (simp add: sweep_Cons)
      with k1 show ?thesis by simp
    qed
  qed
qed


lemma evict_succeeds:
  assumes "map_of (db_connection_pool s) th = Some c" and "close_raises e c = None"
    and "th \<in> dict_keys (db_connection_activity s)"
  shows "evict e th s = (None, s\<lparr>closed := closed s @ [c],
                    db_connection_pool := AList.delete th (db_connection_pool s),
                    db_connection_activity := AList.delete th (db_connection_activity s)\<rparr>)"
  using assms by (simp add: evict_def Let_def)

lemma sweep_succeeds:
  assumes "distinct (map fst items)"
    and "\<forall>th thtime. (th, thtime) \<in> set items \<longrightarrow> (\<not> isAlive e th \<or> thtime < t) \<longrightarrow>
           th \<in> dict_keys (db_connection_activity s) \<and>
           (\<exists>c. map_of (db_connection_pool s) th = Some c \<and> close_raises e c = None)"
  shows "\<exists>s'. sweep e t items s = (None, s')"
  using assms
proof (induction items arbitrary: s)
  case Nil
  then show ?case by simp
next
  case (Cons a items)
  obtain th1 t1 where a: "a = (th1, t1)" by (cases a)
  from Cons.prems(1) a have d: "distinct (map fst items)" and nin: "th1 \<notin> fst ` set items"
    by auto
  show ?case
  proof (cases "\<not> isAlive e th1 \<or> t1 < t")
    case False
    have "\<exists>s'. sweep e t items s = (None, s')"
      by (rule Cons.IH[OF d]) (use Cons.prems(2) in auto)
    with False a show ?thesis by (simp add: sweep_Cons)
  next
    case True
    with Cons.prems(2) a obtain c where
      c: "map_of (db_connection_pool s) th1 = Some c" "close_raises e c = None"
      and k: "th1 \<in> dict_keys (db_connection_activity s)"
      by auto
    let ?s1 = "s\<lparr>closed := closed s @ [c],
                    db_connection_pool := AList.delete th1 (db_connection_pool s),
                    db_connection_activity := AList.delete th1 (db_connection_activity s)\<rparr>"
    have ev: "evict e th1 s = (None, ?s1)" by (rule evict_succeeds[OF c k])
    have "\<exists>s'. sweep e t items ?s1 = (None, s')"
    proof (rule Cons.IH[OF d], intro allI impI)
      fix th thtime
      assume in_items: "(th, thtime) \<in> set items" and st: "\<not> isAlive e th \<or> thtime < t"
      with nin have ne: "th \<noteq> th1" by force
      from Cons.prems(2) in_items st have
        "th \<in> dict_keys (db_connection_activity s) \<and>
         (\<exists>c. map_of (db_connection_pool s) th = Some c \<and> close_raises e c = None)"
        by auto
      with ne show "th \<in> dict_keys (db_connection_activity ?s1) \<and>
         (\<exists>c. map_of (db_connection_pool ?s1) th = Some c \<and> close_raises e c = None)"
        by (auto simp: keys_delete)
    qed
    with True a ev show ?thesis by (simp add: sweep_Cons)
  qed
qed

lemma pool_inv_keys: "pool_inv s \<longleftrightarrow> dict_keys (db_connection_activity s) = dict_keys (db_connection_pool s)"
  by (auto simp: pool_inv_def)

lemma evict_pool_inv:
  assumes "evict e th s = (r, s')" and "pool_inv s"
  shows "pool_inv s'"
  using assms
  by (auto simp: evict_def Let_def pool_inv_keys keys_delete dest: map_of_in_keys
      split: option.splits if_splits)

lemma evict_distinct:
  assumes "evict e th s = (r, s')"
  shows "distinct (map fst (db_connection_pool s)) \<Longrightarrow> distinct (map fst (db_connection_pool s'))"
    and "distinct (map fst (db_connection_activity s)) \<Longrightarrow> distinct (map fst (db_connection_activity s'))"
  using assms
  by (auto simp: evict_def Let_def distinct_delete split: option.splits if_splits)

lemma sweep_preserves:
  assumes "sweep e t items s = (r, s')"
  shows "(pool_inv s \<longrightarrow> pool_inv s') \<and>
         (distinct (map fst (db_connection_pool s)) \<longrightarrow> distinct (map fst (db_connection_pool s'))) \<and>
         (distinct (map fst (db_connection_activity s)) \<longrightarrow> distinct (map fst (db_connection_activity s')))"
  using assms
proof (induction items arbitrary: s)
  case Nil
  then show ?case by simp
next
  case (Cons a items)
  obtain th1 t1 where a: "a = (th1, t1)" by (cases a)
  show ?case
  proof (cases "\<not> isAlive e th1 \<or> t1 < t")
    case False
    with Cons a show ?thesis by (simp add: sweep_Cons)
  next
    case True
    obtain r1 s1 where ev: "evict e th1 s = (r1, s1)" by (cases "evict e th1 s")
    note p = evict_pool_inv[OF ev] evict_distinct[OF ev]
    show ?thesis
    proof (cases r1)
      case None
      with Cons.prems a True ev have "sweep e t items s1 = (r, s')" by (simp add: sweep_Cons)
      from Cons.IH[OF this] p show ?thesis by blast
    next
      case (Some x)
      with Cons.prems a True ev have "s' = s1" by (simp add: sweep_Cons)
      with p show ?thesis by blast
    qed
  qed
qed

lemma connect_and_store_cases:
  assumes "connect_and_store e i cur s = (r, s')"
  shows "(\<exists>x. r = Inl x \<and> s' = s) \<or>
         (\<exists>c. r = Inr c \<and> truthy e c \<and> connect_result e i = Inr c \<and>
              s' = s\<lparr>db_connection_pool := AList.update cur c (db_connection_pool s)\<rparr>)"
proof (cases "connect_result e i")
  case (Inl x)
  with assms have "r = Inl x \<and> s' = s" by (auto simp: connect_and_store_def)
  then show ?thesis by blast
next
  case (Inr c)
  show ?thesis
  proof (cases "truthy e c")
    case True
    with Inr assms have "r = Inr c \<and>
        s' = s\<lparr>db_connection_pool := AList.update cur c (db_connection_pool s)\<rparr>"
      by (auto simp: connect_and_store_def)
    with Inr True show ?thesis by blast
  next
    case False
    with Inr assms have "r = Inl (SystemExit 1) \<and> s' = s" by (auto simp: connect_and_store_def)
    then show ?thesis by blast
  qed
qed

lemma ping_loop_effect:
  assumes "ping_loop fuel e cur i c s = Some (r, s')"
    and "map_of (db_connection_pool s) cur = Some c"
  shows "dict_keys (db_connection_pool s') = dict_keys (db_connection_pool s) \<and>
         db_connection_activity s' = db_connection_activity s \<and>
         lock_held s' = lock_held s \<and> closed s' = closed s \<and>
         (distinct (map fst (db_connection_pool s)) \<longrightarrow> distinct (map fst (db_connection_pool s'))) \<and>
         (\<forall>th. th \<noteq> cur \<longrightarrow> map_of (db_connection_pool s') th = map_of (db_connection_pool s) th) \<and>
         (\<forall>c'. r = Inr c' \<longrightarrow> map_of (db_connection_pool s') cur = Some c')"
  using assms
proof (induction fuel arbitrary: i c s)
  case 0
  then show ?case by simp
next
  case (Suc fuel)
  show ?case
  proof (cases "\<not> truthy e c \<or> ping_raises e c = None")
    case True
    with Suc.prems show ?thesis by (auto split: option.splits)
  next
    case False
    then obtain x where x: "truthy e c" "ping_raises e c = Some x" by auto
    show ?thesis
    proof (cases "x = OperationalError")
      case False
      with x Suc.prems show ?thesis by auto
    next
      case True
      obtain r1 s1 where cs: "connect_and_store e i cur s = (r1, s1)"
        by (cases "connect_and_store e i cur s")
      from connect_and_store_cases[OF cs] show ?thesis
      proof (elim disjE exE conjE)
        fix y assume "r1 = Inl y" "s1 = s"
        with x True cs Suc.prems show ?thesis by auto
      next
        fix c' assume r1: "r1 = Inr c'"
          and s1: "s1 = s\<lparr>db_connection_pool := AList.update cur c' (db_connection_pool s)\<rparr>"
        with x True cs Suc.prems(1) have pl: "ping_loop fuel e cur (Suc i) c' s1 = Some (r, s')"
          by simp
        have m: "map_of (db_connection_pool s1) cur = Some c'"
          using s1 by (simp add: update_conv')
        have k: "dict_keys (db_connection_pool s1) = dict_keys (db_connection_pool s)"
          using s1 map_of_in_keys[OF Suc.prems(2)] by (auto simp: keys_update)
        from Suc.IH[OF pl m] k s1 show ?thesis
          by (auto simp: update_conv' distinct_update)
      qed
    qed
  qed
qed

lemma resolve_effect:
  assumes "resolve fuel e cur s = Some (r, s')"
  shows "db_connection_activity s' = db_connection_activity s \<and>
         lock_held s' = lock_held s \<and> closed s' = closed s \<and>
         (distinct (map fst (db_connection_pool s)) \<longrightarrow> distinct (map fst (db_connection_pool s'))) \<and>
         (\<forall>th. th \<noteq> cur \<longrightarrow> map_of (db_connection_pool s') th = map_of (db_connection_pool s) th) \<and>
         (\<forall>x. r = Inl x \<longrightarrow> dict_keys (db_connection_pool s') = dict_keys (db_connection_pool s)) \<and>
         (\<forall>c. r = Inr c \<longrightarrow> dict_keys (db_connection_pool s') = insert cur (dict_keys (db_connection_pool s)) \<and>
                map_of (db_connection_pool s') cur = Some c)"
proof (cases "map_of (db_connection_pool s) cur")
  case None
  with assms have cs: "connect_and_store e 0 cur s = (r, s')" by (simp add: resolve_def)
  from connect_and_store_cases[OF cs] show ?thesis
    by (auto simp: keys_update update_conv' distinct_update)
next
  case (Some c)
  with assms have pl: "ping_loop fuel e cur 0 c s = Some (r, s')" by (simp add: resolve_def)
  from ping_loop_effect[OF pl Some] map_of_in_keys[OF Some] show ?thesis by auto
qed


lemma get_connection_blocked: "lock_held s \<Longrightarrow> get_connection fuel cfg e cur s = Some (Blocked, s)"
  by (simp add: get_connection_def)

lemma get_connection_unfold:
  "\<not> lock_held s \<Longrightarrow> get_connection fuel cfg e cur s =
     (case sweep e (time_now e - db_connection_timeout cfg) (db_connection_activity s)
             (s\<lparr>lock_held := True\<rparr>) of
        (Some x, s1) \<Rightarrow> Some (Raised x, s1)
      | (None, s1) \<Rightarrow> resolve_and_finish fuel e cur s1)"
  by (simp add: get_connection_def Let_def)

lemma pool_wf_inv: "pool_wf s \<Longrightarrow> pool_inv s"
  by (simp add: pool_wf_def pool_inv_keys)

lemma resolve_and_finish_effect:
  assumes "resolve_and_finish fuel e cur s = Some (r, s')" and "lock_held s"
  shows "(pool_inv s \<longrightarrow> pool_inv s') \<and> (pool_wf s \<longrightarrow> pool_wf s') \<and> r \<noteq> Blocked \<and>
         (\<forall>x. r = Raised x \<longrightarrow> lock_held s') \<and>
         (\<forall>c. r = Returned c \<longrightarrow> \<not> lock_held s' \<and> map_of (db_connection_pool s') cur = Some c \<and>
              map_of (db_connection_activity s') cur = Some (time_now e))"
proof -
  from assms(1) obtain q s1 where rs: "resolve fuel e cur s = Some (q, s1)"
    by (cases "resolve fuel e cur s") (auto simp: resolve_and_finish_def)
  note eff = resolve_effect[OF rs]
  show ?thesis
  proof (cases q)
    case (Inl x)
    with assms rs have "r = Raised x" "s' = s1" by (auto simp: resolve_and_finish_def)
    with eff Inl assms(2) show ?thesis
      by (auto simp: pool_inv_keys pool_wf_def)
  next
    case (Inr c)
    with assms rs have r: "r = Returned c"
      and s': "s' = s1\<lparr>db_connection_activity :=
                 AList.update cur (time_now e) (db_connection_activity s1), lock_held := False\<rparr>"
      by (auto simp: resolve_and_finish_def)
    from eff Inr have k: "dict_keys (db_connection_pool s1) = insert cur (dict_keys (db_connection_pool s))"
      and m: "map_of (db_connection_pool s1) cur = Some c"
      and a: "db_connection_activity s1 = db_connection_activity s"
      and d: "distinct (map fst (db_connection_pool s)) \<longrightarrow> distinct (map fst (db_connection_pool s1))"
      by auto
    from r s' k m a d show ?thesis
      by (auto simp: pool_inv_keys pool_wf_def keys_update update_conv' distinct_update)
  qed
qed

lemma get_connection_effect:
  assumes "get_connection fuel cfg e cur s = Some (r, s')" and "\<not> lock_held s"
  shows "(pool_inv s \<longrightarrow> pool_inv s') \<and> (pool_wf s \<longrightarrow> pool_wf s') \<and> r \<noteq> Blocked \<and>
         (\<forall>x. r = Raised x \<longrightarrow> lock_held s') \<and>
         (\<forall>c. r = Returned c \<longrightarrow> \<not> lock_held s' \<and> map_of (db_connection_pool s') cur = Some c \<and>
              map_of (db_connection_activity s') cur = Some (time_now e))"
proof -
  let ?s0 = "s\<lparr>lock_held := True\<rparr>"
  obtain q s1 where sw: "sweep e (time_now e - db_connection_timeout cfg) (db_connection_activity s) ?s0 = (q, s1)"
    by (cases "sweep e (time_now e - db_connection_timeout cfg) (db_connection_activity s) ?s0")
  have i0: "pool_inv ?s0 = pool_inv s" "pool_wf ?s0 = pool_wf s"
    by (simp_all add: pool_inv_def pool_wf_def)
  from sweep_preserves[OF sw] sweep_mono[OF sw] i0
  have p1: "pool_inv s \<longrightarrow> pool_inv s1" "pool_wf s \<longrightarrow> pool_wf s1" "lock_held s1"
    by (auto simp: pool_wf_def pool_inv_keys)
  show ?thesis
  proof (cases q)
    case (Some x)
    with assms sw have "r = Raised x" "s' = s1" by (auto simp: get_connection_unfold)
    with p1 show ?thesis by auto
  next
    case None
    with assms sw have "resolve_and_finish fuel e cur s1 = Some (r, s')"
      by (auto simp: get_connection_unfold)
    from resolve_and_finish_effect[OF this p1(3)] p1 show ?thesis by auto
  qed
qed

lemma get_connection_preserves:
  assumes "get_connection fuel cfg e cur s = Some (r, s')"
  shows "(pool_inv s \<longrightarrow> pool_inv s') \<and> (pool_wf s \<longrightarrow> pool_wf s')"
proof (cases "lock_held s")
  case True
  with assms show ?thesis by (simp add: get_connection_blocked)
next
  case False
  from get_connection_effect[OF assms False] show ?thesis by blast
qed

lemma close_all_effect:
  "close_all e items s = (r, s') \<Longrightarrow>
     db_connection_pool s' = db_connection_pool s \<and>
     db_connection_activity s' = db_connection_activity s \<and> lock_held s' = lock_held s"
proof (induction items arbitrary: s)
  case Nil
  then show ?case by simp
next
  case (Cons a items)
  obtain t c where a: "a = (t, c)" by (cases a)
  show ?case
  proof (cases "close_raises e c")
    case None
    with Cons.prems a have "close_all e items (s\<lparr>closed := closed s @ [c]\<rparr>) = (r, s')"
      by (simp add: Let_def)
    from Cons.IH[OF this] show ?thesis by simp
  next
    case (Some x)
    with Cons.prems a show ?thesis by (simp add: Let_def)
  qed
qed

lemma close_all_succeeds:
  "\<forall>(t, c) \<in> set items. close_raises e c = None \<Longrightarrow>
     close_all e items s = (None, s\<lparr>closed := closed s @ map snd items\<rparr>)"
proof (induction items arbitrary: s)
  case Nil
  then show ?case by simp
next
  case (Cons a items)
  obtain t c where a: "a = (t, c)" by (cases a)
  from Cons.prems a have c: "close_raises e c = None"
    and rest: "\<forall>(t, c) \<in> set items. close_raises e c = None" by auto
  from Cons.IH[OF rest, of "s\<lparr>closed := closed s @ [c]\<rparr>"] a c show ?case
    by (simp add: Let_def)
qed

lemma close_all_isAlive: "close_all (e\<lparr>isAlive := a\<rparr>) items s = close_all e items s"
  by (induction items arbitrary: s) (auto simp: Let_def debug_def split: option.splits)

lemma close_connections_preserves:
  assumes "close_connections e s = (r, s')"
  shows "(pool_inv s \<longrightarrow> pool_inv s') \<and> (pool_wf s \<longrightarrow> pool_wf s')"
  using close_all_effect[OF assms[unfolded close_connections_def]]
  by (simp add: pool_inv_def pool_wf_def)

lemma reachable_wf: "reachable s \<Longrightarrow> pool_wf s"
proof (induction rule: reachable.induct)
  case reach_init
  show ?case by (simp add: pool_wf_def init_state_def dict_keys_def)
next
  case (reach_get s fuel cfg e cur r s')
  with get_connection_preserves[OF reach_get.hyps(2)] show ?case by blast
next
  case (reach_close s e r s')
  with close_connections_preserves[OF reach_close.hyps(2)] show ?case by blast
qed

text \<open>
  Claim C3. In every reachable state a thread is a key of the activity dictionary if and
  only if it is a key of the connection dictionary; every call of \<open>get_connection\<close>,
  whatever its outcome (returned, raised, blocked), and every call of
  \<open>close_connections\<close> preserves this.
\<close>

theorem pool_invariant:
  "(reachable s \<longrightarrow> pool_inv s) \<and>
   (pool_inv s \<longrightarrow> get_connection fuel cfg e cur s = Some (r, s') \<longrightarrow> pool_inv s') \<and>
   (pool_inv s \<longrightarrow> close_connections e s = (r2, s2) \<longrightarrow> pool_inv s2)"
  using reachable_wf[of s] pool_wf_inv[of s] get_connection_preserves[of fuel cfg e cur s r s']
    close_connections_preserves[of e s r2 s2]
  by blast

lemma sweep_without_failure:
  assumes "pool_wf s" and "\<forall>c. close_raises e c = None"
  shows "\<exists>s1. sweep e t (db_connection_activity s) (s\<lparr>lock_held := True\<rparr>) = (None, s1)"
proof -
  from assms(1) have d: "distinct (map fst (db_connection_activity s))"
    and k: "dict_keys (db_connection_activity s) = dict_keys (db_connection_pool s)"
    by (auto simp: pool_wf_def)
  show ?thesis
  proof (rule sweep_succeeds[OF d], intro allI impI)
    fix th thtime
    assume m: "(th, thtime) \<in> set (db_connection_activity s)"
    then have ka: "th \<in> dict_keys (db_connection_activity s)"
      by (force simp: dict_keys_def)
    with k have "th \<in> fst ` set (db_connection_pool s)" by (simp add: dict_keys_def)
    then obtain c where "map_of (db_connection_pool s) th = Some c"
      by (metis domD dom_map_of_conv_image_fst)
    with ka assms(2) show "th \<in> dict_keys (db_connection_activity (s\<lparr>lock_held := True\<rparr>)) \<and>
          (\<exists>c. map_of (db_connection_pool (s\<lparr>lock_held := True\<rparr>)) th = Some c \<and>
               close_raises e c = None)"
      by simp
  qed
qed

text \<open>
  Claim C1. In a call that finds the lock free, on a well-formed pool, when no
  \<open>close()\<close> of a stale entry raises: the sweep ends in a state \<open>s1\<close> in which every entry
  whose thread is dead or whose timestamp is before \<open>now - timeout\<close> is gone from both
  dictionaries, with its connection closed; the rest of \<open>get_connection\<close> (resolving or
  creating the caller's connection) runs from \<open>s1\<close>.
\<close>

theorem eviction_sweep_first:
  assumes "\<not> lock_held s" and "pool_wf s"
    and "\<forall>th thtime c. (th, thtime) \<in> set (db_connection_activity s) \<longrightarrow> stale cfg e th thtime \<longrightarrow>
           map_of (db_connection_pool s) th = Some c \<longrightarrow> close_raises e c = None"
  shows "\<exists>s1. sweep e (time_now e - db_connection_timeout cfg) (db_connection_activity s)
                 (s\<lparr>lock_held := True\<rparr>) = (None, s1) \<and>
              get_connection fuel cfg e cur s = resolve_and_finish fuel e cur s1 \<and>
              (\<forall>th thtime. (th, thtime) \<in> set (db_connection_activity s) \<and> stale cfg e th thtime \<longrightarrow>
                 th \<notin> dict_keys (db_connection_pool s1) \<and>
                 th \<notin> dict_keys (db_connection_activity s1) \<and>
                 (\<exists>c. map_of (db_connection_pool s) th = Some c \<and> c \<in> set (closed s1)))"
proof -
  let ?s0 = "s\<lparr>lock_held := True\<rparr>"
  let ?t = "time_now e - db_connection_timeout cfg"
  from assms(2) have d: "distinct (map fst (db_connection_activity s))"
    and k: "dict_keys (db_connection_activity s) = dict_keys (db_connection_pool s)"
    by (auto simp: pool_wf_def)
  have "\<exists>s1. sweep e ?t (db_connection_activity s) ?s0 = (None, s1)"
  proof (rule sweep_succeeds[OF d], intro allI impI)
    fix th thtime
    assume m: "(th, thtime) \<in> set (db_connection_activity s)" and st: "\<not> isAlive e th \<or> thtime < ?t"
    from m have ka: "th \<in> dict_keys (db_connection_activity s)"
      by (force simp: dict_keys_def)
    with k have "th \<in> fst ` set (db_connection_pool s)" by (simp add: dict_keys_def)
    then obtain c where c: "map_of (db_connection_pool s) th = Some c"
      by (metis domD dom_map_of_conv_image_fst)
    with assms(3) m st have "close_raises e c = None" by (auto simp: stale_def)
    with ka c show "th \<in> dict_keys (db_connection_activity ?s0) \<and>
          (\<exists>c. map_of (db_connection_pool ?s0) th = Some c \<and> close_raises e c = None)"
      by simp
  qed
  then obtain s1 where sw: "sweep e ?t (db_connection_activity s) ?s0 = (None, s1)" by blast
  have g: "get_connection fuel cfg e cur s = resolve_and_finish fuel e cur s1"
    using assms(1) sw by (simp add: get_connection_unfold)
  have "\<forall>th thtime. (th, thtime) \<in> set (db_connection_activity s) \<and> stale cfg e th thtime \<longrightarrow>
                 th \<notin> dict_keys (db_connection_pool s1) \<and>
                 th \<notin> dict_keys (db_connection_activity s1) \<and>
                 (\<exists>c. map_of (db_connection_pool s) th = Some c \<and> c \<in> set (closed s1))"
    using sweep_evicts[OF sw] by (auto simp: stale_def)
  with sw g show ?thesis by blast
qed

text \<open>
  Claim C7. \<open>close_connections\<close> leaves both dictionaries as they are, does not look
  at whether a thread is alive, and, when no \<open>close()\<close> raises, closes every
  connection of the pool, in the order of the items.
\<close>

theorem close_connections_keeps_maps:
  "db_connection_pool (snd (close_connections e s)) = db_connection_pool s \<and>
   db_connection_activity (snd (close_connections e s)) = db_connection_activity s \<and>
   close_connections (e\<lparr>isAlive := a\<rparr>) s = close_connections e s \<and>
   ((\<forall>(t, c) \<in> set (db_connection_pool s). close_raises e c = None) \<longrightarrow>
      close_connections e s = (None, s\<lparr>closed := closed s @ map snd (db_connection_pool s)\<rparr>))"
  using close_all_effect[of e "db_connection_pool s" s "fst (close_connections e s)" "snd (close_connections e s)"]
    close_all_succeeds[of "db_connection_pool s" e s]
  by (auto simp: close_connections_def close_all_isAlive)


text \<open>
  Claim C4. If a call by thread \<open>cur\<close> returned connection \<open>c\<close>, and at the next call
  the thread is alive, less than the timeout has passed, \<open>ping\<close> on \<open>c\<close> succeeds and no
  \<open>close()\<close> raises, then the next call returns (one pass of the loop is enough) and
  returns the same \<open>c\<close>.
\<close>

theorem get_connection_twice:
  assumes "pool_wf s"
    and "get_connection fuel cfg e1 cur s = Some (Returned c, s1)"
    and "isAlive e2 cur"
    and "time_now e2 - time_now e1 < db_connection_timeout cfg"
    and "ping_raises e2 c = None"
    and "\<forall>c'. close_raises e2 c' = None"
  shows "\<exists>s2. get_connection (Suc fuel') cfg e2 cur s1 = Some (Returned c, s2)"
proof -
  have nl: "\<not> lock_held s"
    using assms(2) by (auto simp: get_connection_def split: if_splits)
  from get_connection_effect[OF assms(2) nl] assms(1)
  have wf1: "pool_wf s1" and l1: "\<not> lock_held s1"
    and mp: "map_of (db_connection_pool s1) cur = Some c"
    and ma: "map_of (db_connection_activity s1) cur = Some (time_now e1)"
    by auto
  let ?s0 = "s1\<lparr>lock_held := True\<rparr>"
  let ?t = "time_now e2 - db_connection_timeout cfg"
  from sweep_without_failure[OF wf1 assms(6), of ?t] obtain s1' where
    sw: "sweep e2 ?t (db_connection_activity s1) ?s0 = (None, s1')"
    by blast
  have g: "get_connection (Suc fuel') cfg e2 cur s1 = resolve_and_finish (Suc fuel') e2 cur s1'"
    using l1 sw by (simp add: get_connection_unfold)
  from wf1 have d: "distinct (map fst (db_connection_activity s1))" by (simp add: pool_wf_def)
  have "\<forall>thtime. (cur, thtime) \<in> set (db_connection_activity s1) \<longrightarrow> isAlive e2 cur \<and> \<not> thtime < ?t"
  proof (intro allI impI)
    fix thtime assume "(cur, thtime) \<in> set (db_connection_activity s1)"
    with d ma have "thtime = time_now e1" by simp
    with assms(3,4) show "isAlive e2 cur \<and> \<not> thtime < ?t" by simp
  qed
  from sweep_keeps[OF sw this] mp have mp': "map_of (db_connection_pool s1') cur = Some c" by simp
  have "resolve (Suc fuel') e2 cur s1' = Some (Inr c, s1')"
    using mp' assms(5) by (simp add: resolve_def)
  then show ?thesis using g by (simp add: resolve_and_finish_def)
qed

lemma same_classes_refl: "same_classes w w"
  by (simp add: same_classes_def)

lemma same_classes_trans: "same_classes w w1 \<Longrightarrow> same_classes w1 w2 \<Longrightarrow> same_classes w w2"
  by (simp add: same_classes_def)

lemma cursor_execute_classes: "cursor_execute e k args kw w = (r, w') \<Longrightarrow> same_classes w w'"
  by (auto simp: cursor_execute_def same_classes_def Let_def split: sum.splits)

lemma cursor_fetchone_classes: "cursor_fetchone k w = (r, w') \<Longrightarrow> same_classes w w'"
  by (auto simp: cursor_fetchone_def same_classes_def Let_def split: list.splits)

lemma close_local_classes: "same_classes w (close_local lc w)"
  by (auto simp: close_local_def cursor_close_def same_classes_def split: option.splits)

lemma fetch_loop_classes: "fetch_loop n k acc w = (r, w') \<Longrightarrow> same_classes w w'"
proof (induction n arbitrary: acc w)
  case 0
  then show ?case by (simp add: same_classes_refl)
next
  case (Suc n)
  obtain row w1 where f: "cursor_fetchone k w = (row, w1)" by (cases "cursor_fetchone k w")
  with Suc.prems have "fetch_loop n k (acc @ [row]) w1 = (r, w')" by simp
  from Suc.IH[OF this] cursor_fetchone_classes[OF f] show ?case
    by (rule same_classes_trans[rotated])
qed

lemma value_loop_classes: "value_loop n k acc w = (r, w') \<Longrightarrow> same_classes w w'"
proof (induction n arbitrary: acc w)
  case 0
  then show ?case by (auto simp: same_classes_refl)
next
  case (Suc n)
  obtain row w1 where f: "cursor_fetchone k w = (row, w1)" by (cases "cursor_fetchone k w")
  note c1 = cursor_fetchone_classes[OF f]
  show ?case
  proof (cases "row_value row")
    case (Inl x)
    with Suc.prems f c1 show ?thesis by auto
  next
    case (Inr v)
    with Suc.prems f have "value_loop n k (acc @ [v]) w1 = (r, w')" by simp
    from Suc.IH[OF this] c1 show ?thesis by (rule same_classes_trans[rotated])
  qed
qed

lemma object_loop_classes: "object_loop n k acc w = (r, w') \<Longrightarrow> same_classes w w'"
proof (induction n arbitrary: acc w)
  case 0
  then show ?case by (auto simp: same_classes_refl)
next
  case (Suc n)
  obtain row w1 where f: "cursor_fetchone k w = (row, w1)" by (cases "cursor_fetchone k w")
  note c1 = cursor_fetchone_classes[OF f]
  show ?case
  proof (cases "object_of_row row")
    case (Inl x)
    with Suc.prems f c1 show ?thesis by auto
  next
    case (Inr v)
    with Suc.prems f have "object_loop n k (acc @ [v]) w1 = (r, w')" by simp
    from Suc.IH[OF this] c1 show ?thesis by (rule same_classes_trans[rotated])
  qed
qed

lemma execute_body_classes: "execute_body e args c w = (r, w') \<Longrightarrow> same_classes w w'"
  by (auto simp: execute_body_def split: prod.splits sum.splits
      dest!: cursor_execute_classes intro: same_classes_trans close_local_classes)

lemma fetch_one_body_classes: "fetch_one_body e args c w = (r, w') \<Longrightarrow> same_classes w w'"
  by (auto simp: fetch_one_body_def split: prod.splits sum.splits
      dest!: cursor_execute_classes cursor_fetchone_classes
      intro: same_classes_trans close_local_classes)

lemma fetch_all_body_classes: "fetch_all_body e args c w = (r, w') \<Longrightarrow> same_classes w w'"
  by (auto simp: fetch_all_body_def split: prod.splits sum.splits
      dest!: cursor_execute_classes fetch_loop_classes
      intro: same_classes_trans close_local_classes)

lemma fetch_n_body_classes: "fetch_n_body n e args c w = (r, w') \<Longrightarrow> same_classes w w'"
  by (auto simp: fetch_n_body_def Let_def split: prod.splits sum.splits if_splits
      dest!: cursor_execute_classes fetch_loop_classes
      intro: same_classes_trans close_local_classes)

lemma fetch_value_body_classes: "fetch_value_body e args c w = (r, w') \<Longrightarrow> same_classes w w'"
  by (auto simp: fetch_value_body_def split: prod.splits sum.splits if_splits
      dest!: cursor_execute_classes cursor_fetchone_classes
      intro: same_classes_trans close_local_classes)

lemma fetch_values_body_classes: "fetch_values_body e args c w = (r, w') \<Longrightarrow> same_classes w w'"
  by (auto simp: fetch_values_body_def split: prod.splits sum.splits
      dest!: cursor_execute_classes value_loop_classes
      intro: same_classes_trans close_local_classes)

lemma yield_values_body_classes: "yield_values_body e args c w = (r, w') \<Longrightarrow> same_classes w w'"
  by (auto simp: yield_values_body_def split: prod.splits sum.splits
      dest!: cursor_execute_classes value_loop_classes
      intro: same_classes_trans close_local_classes)

lemma yield_objects_body_classes: "yield_objects_body e args c w = (r, w') \<Longrightarrow> same_classes w w'"
  by (auto simp: yield_objects_body_def split: prod.splits sum.splits
      dest!: cursor_execute_classes object_loop_classes
      intro: same_classes_trans close_local_classes)


lemma conn_cursor_effect:
  assumes "conn_cursor e c req w = (k, w')"
  shows "k = next_cursor w \<and> next_cursor w' = Suc (next_cursor w) \<and> pool w' = pool w \<and>
         cursor_conn (cursors w' k) = c \<and> \<not> cursor_closed (cursors w' k) \<and>
         cursorclass (cursors w' k) = (case req of None \<Rightarrow> default_cursorclass e | Some cc \<Rightarrow> cc)"
  using assms by (auto simp: conn_cursor_def Let_def)

lemma get_cursor_cases:
  assumes "get_cursor fuel cfg e cur req kw w = Some (Returned (lc, k, kw'), w1)"
  shows "(locally_owned kw \<and> lc = Some k \<and> k = next_cursor w \<and> next_cursor w1 = Suc (next_cursor w) \<and>
          cursorclass (cursors w1 k) = (case req of None \<Rightarrow> default_cursorclass e | Some cc \<Rightarrow> cc)) \<or>
         (\<not> locally_owned kw \<and> lc = None \<and> kw_cursor kw = Some k \<and> w1 = w)"
proof (cases "kw_connection kw")
  case (Some c)
  obtain k0 w0 where cc: "conn_cursor e c req w = (k0, w0)" by (cases "conn_cursor e c req w")
  with assms Some have "lc = Some k" "k = k0" "w1 = w0" by (auto simp: get_cursor_def)
  with conn_cursor_effect[OF cc] Some show ?thesis by (auto simp: locally_owned_def)
next
  case None
  show ?thesis
  proof (cases "kw_cursor kw")
    case (Some k0)
    with None assms show ?thesis by (auto simp: get_cursor_def locally_owned_def)
  next
    case kn: None
    from assms None kn obtain c p where
      g: "get_connection fuel cfg e cur (pool w) = Some (Returned c, p)"
      by (auto simp: get_cursor_def split: option.splits outcome.splits prod.splits)
    obtain k0 w0 where cc: "conn_cursor e c req (w\<lparr>pool := p\<rparr>) = (k0, w0)"
      by (cases "conn_cursor e c req (w\<lparr>pool := p\<rparr>)")
    with assms None kn g have "lc = Some k" "k = k0" "w1 = w0" by (auto simp: get_cursor_def)
    with conn_cursor_effect[OF cc] None kn show ?thesis by (auto simp: locally_owned_def)
  qed
qed

lemma then_run_cases:
  assumes "then_run g body = Some (r, w')"
  shows "(\<exists>c w1 q. g = Some (Returned c, w1) \<and> body c w1 = (q, w') \<and>
            r = (case q of Inl x \<Rightarrow> Raised x | Inr v \<Rightarrow> Returned v)) \<or>
         (g = Some (Blocked, w') \<and> r = Blocked) \<or> (\<exists>x. g = Some (Raised x, w') \<and> r = Raised x)"
  using assms
  by (auto simp: then_run_def split: option.splits outcome.splits prod.splits sum.splits)

lemma close_local_closed: "cursor_closed (cursors (close_local (Some k) w) k)"
  by (simp add: close_local_def cursor_close_def)

lemma helper_closes_local:
  assumes "then_run (get_cursor fuel cfg e cur req kw w) body = Some (Returned v, w')"
    and "locally_owned kw"
    and "\<And>k kw' w1 v w2. body (Some k, k, kw') w1 = (Inr v, w2) \<Longrightarrow> cursor_closed (cursors w2 k)"
  shows "cursor_closed (cursors w' (next_cursor w))"
proof -
  from then_run_cases[OF assms(1)] obtain c w1 q where
    g: "get_cursor fuel cfg e cur req kw w = Some (Returned c, w1)" and b: "body c w1 = (q, w')"
    and r: "Returned v = (case q of Inl x \<Rightarrow> Raised x | Inr v \<Rightarrow> Returned v)"
    by auto
  from r have q: "q = Inr v" by (cases q) auto
  obtain lc k kw' where c: "c = (lc, k, kw')" by (cases c)
  from get_cursor_cases[OF g[unfolded c]] assms(2) have "lc = Some k" "k = next_cursor w" by auto
  with assms(3)[of k kw' w1 v w'] b c q show ?thesis by simp
qed

lemma execute_body_closes:
  "execute_body e args (Some k, k, kw') w1 = (Inr v, w2) \<Longrightarrow> cursor_closed (cursors w2 k)"
  by (auto simp: execute_body_def close_local_closed split: prod.splits sum.splits)

lemma fetch_one_body_closes:
  "fetch_one_body e args (Some k, k, kw') w1 = (Inr v, w2) \<Longrightarrow> cursor_closed (cursors w2 k)"
  by (auto simp: fetch_one_body_def close_local_closed split: prod.splits sum.splits)

lemma fetch_all_body_closes:
  "fetch_all_body e args (Some k, k, kw') w1 = (Inr v, w2) \<Longrightarrow> cursor_closed (cursors w2 k)"
  by (auto simp: fetch_all_body_def close_local_closed split: prod.splits sum.splits)

lemma fetch_n_body_closes:
  "fetch_n_body n e args (Some k, k, kw') w1 = (Inr v, w2) \<Longrightarrow> cursor_closed (cursors w2 k)"
  by (auto simp: fetch_n_body_def Let_def close_local_closed split: prod.splits sum.splits if_splits)

lemma fetch_value_body_closes:
  "fetch_value_body e args (Some k, k, kw') w1 = (Inr v, w2) \<Longrightarrow> cursor_closed (cursors w2 k)"
  by (auto simp: fetch_value_body_def close_local_closed split: prod.splits sum.splits if_splits)

lemma fetch_values_body_closes:
  "fetch_values_body e args (Some k, k, kw') w1 = (Inr v, w2) \<Longrightarrow> cursor_closed (cursors w2 k)"
  by (auto simp: fetch_values_body_def close_local_closed split: prod.splits sum.splits)

lemma execute_closes:
  assumes "locally_owned kw" and "execute fuel cfg e cur args kw w = Some (Returned v, w')"
  shows "cursor_closed (cursors w' (next_cursor w))"
  by (rule helper_closes_local[OF assms(2)[unfolded execute_def] assms(1)]) (rule execute_body_closes)

lemma fetch_one_closes:
  assumes "locally_owned kw" and "fetch_one fuel cfg e cur args kw w = Some (Returned v, w')"
  shows "cursor_closed (cursors w' (next_cursor w))"
  by (rule helper_closes_local[OF assms(2)[unfolded fetch_one_def] assms(1)]) (rule fetch_one_body_closes)

lemma fetch_all_closes:
  assumes "locally_owned kw" and "fetch_all fuel cfg e cur args kw w = Some (Returned v, w')"
  shows "cursor_closed (cursors w' (next_cursor w))"
  by (rule helper_closes_local[OF assms(2)[unfolded fetch_all_def] assms(1)]) (rule fetch_all_body_closes)

lemma fetch_value_closes:
  assumes "locally_owned kw" and "fetch_value fuel cfg e cur args kw w = Some (Returned v, w')"
  shows "cursor_closed (cursors w' (next_cursor w))"
  by (rule helper_closes_local[OF assms(2)[unfolded fetch_value_def] assms(1)]) (rule fetch_value_body_closes)

lemma fetch_values_closes:
  assumes "locally_owned kw" and "fetch_values fuel cfg e cur args kw w = Some (Returned v, w')"
  shows "cursor_closed (cursors w' (next_cursor w))"
  by (rule helper_closes_local[OF assms(2)[unfolded fetch_values_def] assms(1)]) (rule fetch_values_body_closes)

lemma fetch_n_closes:
  assumes "locally_owned kw" and "fetch_n fuel cfg e cur m args kw w = Some (Returned v, w')"
  shows "cursor_closed (cursors w' (next_cursor w))"
  by (rule helper_closes_local[OF assms(2)[unfolded fetch_n_def] assms(1)]) (rule fetch_n_body_closes)

lemma made_cursor_closed:
  assumes "returned res"
    and "\<And>v w'. res = Some (Returned v, w') \<Longrightarrow> cursor_closed (cursors w' (next_cursor w))"
    and "\<And>v w'. res = Some (Returned v, w') \<Longrightarrow> next_cursor w' \<noteq> next_cursor w"
  shows "map_option cursor_closed (made_cursor w res) = Some True"
  using assms
  by (auto simp: returned_def made_cursor_def split: option.splits outcome.splits prod.splits)

lemma helper_made_cursor:
  assumes "then_run (get_cursor fuel cfg e cur req kw w) body = Some (Returned v, w')"
    and "locally_owned kw"
    and "\<And>c w1 q w2. body c w1 = (q, w2) \<Longrightarrow> same_classes w1 w2"
  shows "next_cursor w' \<noteq> next_cursor w"
proof -
  from then_run_cases[OF assms(1)] obtain c w1 q where
    g: "get_cursor fuel cfg e cur req kw w = Some (Returned c, w1)" and b: "body c w1 = (q, w')"
    by auto
  obtain lc k kw' where c: "c = (lc, k, kw')" by (cases c)
  from get_cursor_cases[OF g[unfolded c]] assms(2) assms(3)[OF b] show ?thesis
    by (auto simp: same_classes_def)
qed

lemma execute_made:
  assumes "locally_owned kw" and "execute fuel cfg e cur args kw w = Some (Returned v, w')"
  shows "next_cursor w' \<noteq> next_cursor w"
  by (rule helper_made_cursor[OF assms(2)[unfolded execute_def] assms(1)]) (rule execute_body_classes)

lemma fetch_one_made:
  assumes "locally_owned kw" and "fetch_one fuel cfg e cur args kw w = Some (Returned v, w')"
  shows "next_cursor w' \<noteq> next_cursor w"
  by (rule helper_made_cursor[OF assms(2)[unfolded fetch_one_def] assms(1)]) (rule fetch_one_body_classes)

lemma fetch_all_made:
  assumes "locally_owned kw" and "fetch_all fuel cfg e cur args kw w = Some (Returned v, w')"
  shows "next_cursor w' \<noteq> next_cursor w"
  by (rule helper_made_cursor[OF assms(2)[unfolded fetch_all_def] assms(1)]) (rule fetch_all_body_classes)

lemma fetch_value_made:
  assumes "locally_owned kw" and "fetch_value fuel cfg e cur args kw w = Some (Returned v, w')"
  shows "next_cursor w' \<noteq> next_cursor w"
  by (rule helper_made_cursor[OF assms(2)[unfolded fetch_value_def] assms(1)]) (rule fetch_value_body_classes)

lemma fetch_values_made:
  assumes "locally_owned kw" and "fetch_values fuel cfg e cur args kw w = Some (Returned v, w')"
  shows "next_cursor w' \<noteq> next_cursor w"
  by (rule helper_made_cursor[OF assms(2)[unfolded fetch_values_def] assms(1)]) (rule fetch_values_body_classes)

lemma fetch_n_made:
  assumes "locally_owned kw" and "fetch_n fuel cfg e cur n args kw w = Some (Returned v, w')"
  shows "next_cursor w' \<noteq> next_cursor w"
  by (rule helper_made_cursor[OF assms(2)[unfolded fetch_n_def] assms(1)]) (rule fetch_n_body_classes)

lemma cursor_execute_closed:
  "cursor_execute e k args kw w = (r, w') \<Longrightarrow>
     cursor_closed (cursors w' j) = cursor_closed (cursors w j)"
  by (cases "j = k") (auto simp: cursor_execute_def Let_def split: sum.splits)

lemma cursor_fetchone_closed:
  "cursor_fetchone k w = (r, w') \<Longrightarrow>
     cursor_closed (cursors w' j) = cursor_closed (cursors w j)"
  by (cases "j = k") (auto simp: cursor_fetchone_def Let_def split: list.splits)

lemma value_loop_closed:
  "value_loop n k acc w = (r, w') \<Longrightarrow>
     cursor_closed (cursors w' j) = cursor_closed (cursors w j)"
proof (induction n arbitrary: acc w)
  case 0
  then show ?case by auto
next
  case (Suc n)
  obtain row w1 where f: "cursor_fetchone k w = (row, w1)" by (cases "cursor_fetchone k w")
  note c1 = cursor_fetchone_closed[OF f, of j]
  show ?case
  proof (cases "row_value row")
    case (Inl x)
    with Suc.prems f c1 show ?thesis by auto
  next
    case (Inr v)
    with Suc.prems f have "value_loop n k (acc @ [v]) w1 = (r, w')" by simp
    from Suc.IH[OF this] c1 show ?thesis by simp
  qed
qed

lemma execute_body_raise:
  "execute_body e args (lc, k, kw') w1 = (Inl x, w2) \<Longrightarrow>
     cursor_closed (cursors w2 j) = cursor_closed (cursors w1 j)"
  by (auto simp: execute_body_def split: prod.splits sum.splits dest: cursor_execute_closed)

lemma fetch_one_body_raise:
  "fetch_one_body e args (lc, k, kw') w1 = (Inl x, w2) \<Longrightarrow>
     cursor_closed (cursors w2 j) = cursor_closed (cursors w1 j)"
  by (auto simp: fetch_one_body_def split: prod.splits sum.splits dest: cursor_execute_closed)

lemma fetch_all_body_raise:
  "fetch_all_body e args (lc, k, kw') w1 = (Inl x, w2) \<Longrightarrow>
     cursor_closed (cursors w2 j) = cursor_closed (cursors w1 j)"
  by (auto simp: fetch_all_body_def split: prod.splits sum.splits dest: cursor_execute_closed)

lemma fetch_n_body_raise:
  "fetch_n_body n e args (lc, k, kw') w1 = (Inl x, w2) \<Longrightarrow>
     cursor_closed (cursors w2 j) = cursor_closed (cursors w1 j)"
  by (auto simp: fetch_n_body_def Let_def split: prod.splits sum.splits if_splits
      dest: cursor_execute_closed)

lemma fetch_value_body_raise:
  "fetch_value_body e args (lc, k, kw') w1 = (Inl x, w2) \<Longrightarrow>
     cursor_closed (cursors w2 j) = cursor_closed (cursors w1 j)"
  by (auto simp: fetch_value_body_def split: prod.splits sum.splits if_splits
      dest: cursor_execute_closed cursor_fetchone_closed)

lemma fetch_values_body_raise:
  "fetch_values_body e args (lc, k, kw') w1 = (Inl x, w2) \<Longrightarrow>
     cursor_closed (cursors w2 j) = cursor_closed (cursors w1 j)"
  by (auto simp: fetch_values_body_def split: prod.splits sum.splits
      dest: cursor_execute_closed value_loop_closed)

lemma get_cursor_not_returned:
  assumes "get_cursor fuel cfg e cur req kw w = Some (r, w1)" and "\<forall>c. r \<noteq> Returned c"
  shows "next_cursor w1 = next_cursor w"
proof (cases "kw_connection kw")
  case (Some c)
  with assms show ?thesis by (auto simp: get_cursor_def split: prod.splits)
next
  case None
  show ?thesis
  proof (cases "kw_cursor kw")
    case (Some k0)
    with None assms show ?thesis by (auto simp: get_cursor_def)
  next
    case kn: None
    with None assms show ?thesis
      by (auto simp: get_cursor_def split: option.splits outcome.splits prod.splits)
  qed
qed

lemma get_cursor_open:
  assumes "get_cursor fuel cfg e cur req kw w = Some (Returned (lc, k, kw'), w1)"
    and "locally_owned kw"
  shows "k = next_cursor w \<and> \<not> cursor_closed (cursors w1 k)"
proof (cases "kw_connection kw")
  case (Some c)
  with assms show ?thesis by (auto simp: get_cursor_def conn_cursor_def Let_def)
next
  case None
  with assms(2) have kn: "kw_cursor kw = None" by (simp add: locally_owned_def)
  with None assms(1) show ?thesis
    by (auto simp: get_cursor_def conn_cursor_def Let_def
        split: option.splits outcome.splits prod.splits)
qed

lemma helper_leaves_open:
  assumes "raised (then_run (get_cursor fuel cfg e cur req kw w) body)"
    and "locally_owned kw"
    and "\<And>lc k kw' w1 x w2. body (lc, k, kw') w1 = (Inl x, w2) \<Longrightarrow>
           cursor_closed (cursors w2 k) = cursor_closed (cursors w1 k)"
  shows "map_option cursor_closed
           (made_cursor w (then_run (get_cursor fuel cfg e cur req kw w) body)) \<noteq> Some True"
proof -
  from assms(1) obtain x w' where
    t: "then_run (get_cursor fuel cfg e cur req kw w) body = Some (Raised x, w')"
    by (auto simp: raised_def split: option.splits prod.splits outcome.splits)
  from then_run_cases[OF t] show ?thesis
  proof (elim disjE exE conjE)
    fix c w1 q
    assume g: "get_cursor fuel cfg e cur req kw w = Some (Returned c, w1)"
      and b: "body c w1 = (q, w')"
      and r: "Raised x = (case q of Inl x \<Rightarrow> Raised x | Inr v \<Rightarrow> Returned v)"
    obtain lc k kw' where c: "c = (lc, k, kw')" by (cases c)
    from r obtain y where q: "q = Inl y" by (cases q) auto
    from get_cursor_open[OF g[unfolded c] assms(2)] assms(3)[OF b[unfolded c q]]
    have "\<not> cursor_closed (cursors w' (next_cursor w))" by auto
    with t show ?thesis by (simp add: made_cursor_def)
  next
    assume "get_cursor fuel cfg e cur req kw w = Some (Blocked, w')" "Raised x = Blocked"
    then show ?thesis by simp
  next
    fix y assume g: "get_cursor fuel cfg e cur req kw w = Some (Raised y, w')"
    from get_cursor_not_returned[OF g] t show ?thesis by (simp add: made_cursor_def)
  qed
qed

lemma execute_leaves_open:
  assumes "locally_owned kw" and "raised (execute fuel cfg e cur args kw w)"
  shows "map_option cursor_closed (made_cursor w (execute fuel cfg e cur args kw w)) \<noteq> Some True"
  unfolding execute_def
  by (rule helper_leaves_open[OF assms(2)[unfolded execute_def] assms(1)]) (rule execute_body_raise)

lemma fetch_one_leaves_open:
  assumes "locally_owned kw" and "raised (fetch_one fuel cfg e cur args kw w)"
  shows "map_option cursor_closed (made_cursor w (fetch_one fuel cfg e cur args kw w)) \<noteq> Some True"
  unfolding fetch_one_def
  by (rule helper_leaves_open[OF assms(2)[unfolded fetch_one_def] assms(1)]) (rule fetch_one_body_raise)

lemma fetch_all_leaves_open:
  assumes "locally_owned kw" and "raised (fetch_all fuel cfg e cur args kw w)"
  shows "map_option cursor_closed (made_cursor w (fetch_all fuel cfg e cur args kw w)) \<noteq> Some True"
  unfolding fetch_all_def
  by (rule helper_leaves_open[OF assms(2)[unfolded fetch_all_def] assms(1)]) (rule fetch_all_body_raise)

lemma fetch_n_leaves_open:
  assumes "locally_owned kw" and "raised (fetch_n fuel cfg e cur n args kw w)"
  shows "map_option cursor_closed (made_cursor w (fetch_n fuel cfg e cur n args kw w)) \<noteq> Some True"
  unfolding fetch_n_def
  by (rule helper_leaves_open[OF assms(2)[unfolded fetch_n_def] assms(1)]) (rule fetch_n_body_raise)

lemma fetch_value_leaves_open:
  assumes "locally_owned kw" and "raised (fetch_value fuel cfg e cur args kw w)"
  shows "map_option cursor_closed (made_cursor w (fetch_value fuel cfg e cur args kw w)) \<noteq> Some True"
  unfolding fetch_value_def
  by (rule helper_leaves_open[OF assms(2)[unfolded fetch_value_def] assms(1)]) (rule fetch_value_body_raise)

lemma fetch_values_leaves_open:
  assumes "locally_owned kw" and "raised (fetch_values fuel cfg e cur args kw w)"
  shows "map_option cursor_closed (made_cursor w (fetch_values fuel cfg e cur args kw w)) \<noteq> Some True"
  unfolding fetch_values_def
  by (rule helper_leaves_open[OF assms(2)[unfolded fetch_values_def] assms(1)]) (rule fetch_values_body_raise)

text \<open>
  Claim C2, as amended. When \<open>execute\<close>, \<open>fetch_one\<close>, \<open>fetch_all\<close>, \<open>fetch_n\<close>,
  \<open>fetch_value\<close> or \<open>fetch_values\<close> owns its cursor and returns normally, the cursor it
  made is closed in the final state. When it raises, it has closed no cursor: either none
  was made (the error came from \<open>get_connection\<close>) or the one made is still open.
\<close>

theorem local_cursor_closed_on_return:
  assumes "locally_owned kw"
  shows "(returned (execute fuel cfg e cur args kw w) \<longrightarrow>
            map_option cursor_closed (made_cursor w (execute fuel cfg e cur args kw w)) = Some True) \<and>
         (returned (fetch_one fuel cfg e cur args kw w) \<longrightarrow>
            map_option cursor_closed (made_cursor w (fetch_one fuel cfg e cur args kw w)) = Some True) \<and>
         (returned (fetch_all fuel cfg e cur args kw w) \<longrightarrow>
            map_option cursor_closed (made_cursor w (fetch_all fuel cfg e cur args kw w)) = Some True) \<and>
         (returned (fetch_n fuel cfg e cur n args kw w) \<longrightarrow>
            map_option cursor_closed (made_cursor w (fetch_n fuel cfg e cur n args kw w)) = Some True) \<and>
         (returned (fetch_value fuel cfg e cur args kw w) \<longrightarrow>
            map_option cursor_closed (made_cursor w (fetch_value fuel cfg e cur args kw w)) = Some True) \<and>
         (returned (fetch_values fuel cfg e cur args kw w) \<longrightarrow>
            map_option cursor_closed (made_cursor w (fetch_values fuel cfg e cur args kw w)) = Some True) \<and>
         (raised (execute fuel cfg e cur args kw w) \<longrightarrow>
            map_option cursor_closed (made_cursor w (execute fuel cfg e cur args kw w)) \<noteq> Some True) \<and>
         (raised (fetch_one fuel cfg e cur args kw w) \<longrightarrow>
            map_option cursor_closed (made_cursor w (fetch_one fuel cfg e cur args kw w)) \<noteq> Some True) \<and>
         (raised (fetch_all fuel cfg e cur args kw w) \<longrightarrow>
            map_option cursor_closed (made_cursor w (fetch_all fuel cfg e cur args kw w)) \<noteq> Some True) \<and>
         (raised (fetch_n fuel cfg e cur n args kw w) \<longrightarrow>
            map_option cursor_closed (made_cursor w (fetch_n fuel cfg e cur n args kw w)) \<noteq> Some True) \<and>
         (raised (fetch_value fuel cfg e cur args kw w) \<longrightarrow>
            map_option cursor_closed (made_cursor w (fetch_value fuel cfg e cur args kw w)) \<noteq> Some True) \<and>
         (raised (fetch_values fuel cfg e cur args kw w) \<longrightarrow>
            map_option cursor_closed (made_cursor w (fetch_values fuel cfg e cur args kw w)) \<noteq> Some True)"
proof (intro conjI impI)
  assume "returned (execute fuel cfg e cur args kw w)"
  then show "map_option cursor_closed (made_cursor w (execute fuel cfg e cur args kw w)) = Some True"
  proof (rule made_cursor_closed)
    fix v w' assume r: "execute fuel cfg e cur args kw w = Some (Returned v, w')"
    from execute_closes[OF assms r] show "cursor_closed (cursors w' (next_cursor w))" .
    from execute_made[OF assms r] show "next_cursor w' \<noteq> next_cursor w" .
  qed
next
  assume "returned (fetch_one fuel cfg e cur args kw w)"
  then show "map_option cursor_closed (made_cursor w (fetch_one fuel cfg e cur args kw w)) = Some True"
  proof (rule made_cursor_closed)
    fix v w' assume r: "fetch_one fuel cfg e cur args kw w = Some (Returned v, w')"
    from fetch_one_closes[OF assms r] show "cursor_closed (cursors w' (next_cursor w))" .
    from fetch_one_made[OF assms r] show "next_cursor w' \<noteq> next_cursor w" .
  qed
next
  assume "returned (fetch_all fuel cfg e cur args kw w)"
  then show "map_option cursor_closed (made_cursor w (fetch_all fuel cfg e cur args kw w)) = Some True"
  proof (rule made_cursor_closed)
    fix v w' assume r: "fetch_all fuel cfg e cur args kw w = Some (Returned v, w')"
    from fetch_all_closes[OF assms r] show "cursor_closed (cursors w' (next_cursor w))" .
    from fetch_all_made[OF assms r] show "next_cursor w' \<noteq> next_cursor w" .
  qed
next
  assume "returned (fetch_n fuel cfg e cur n args kw w)"
  then show "map_option cursor_closed (made_cursor w (fetch_n fuel cfg e cur n args kw w)) = Some True"
  proof (rule made_cursor_closed)
    fix v w' assume r: "fetch_n fuel cfg e cur n args kw w = Some (Returned v, w')"
    from fetch_n_closes[OF assms r] show "cursor_closed (cursors w' (next_cursor w))" .
    from fetch_n_made[OF assms r] show "next_cursor w' \<noteq> next_cursor w" .
  qed
next
  assume "returned (fetch_value fuel cfg e cur args kw w)"
  then show "map_option cursor_closed (made_cursor w (fetch_value fuel cfg e cur args kw w)) = Some True"
  proof (rule made_cursor_closed)
    fix v w' assume r: "fetch_value fuel cfg e cur args kw w = Some (Returned v, w')"
    from fetch_value_closes[OF assms r] show "cursor_closed (cursors w' (next_cursor w))" .
    from fetch_value_made[OF assms r] show "next_cursor w' \<noteq> next_cursor w" .
  qed
next
  assume "returned (fetch_values fuel cfg e cur args kw w)"
  then show "map_option cursor_closed (made_cursor w (fetch_values fuel cfg e cur args kw w)) = Some True"
  proof (rule made_cursor_closed)
    fix v w' assume r: "fetch_values fuel cfg e cur args kw w = Some (Returned v, w')"
    from fetch_values_closes[OF assms r] show "cursor_closed (cursors w' (next_cursor w))" .
    from fetch_values_made[OF assms r] show "next_cursor w' \<noteq> next_cursor w" .
  qed
next
  assume "raised (execute fuel cfg e cur args kw w)"
  from execute_leaves_open[OF assms this]
  show "map_option cursor_closed (made_cursor w (execute fuel cfg e cur args kw w)) \<noteq> Some True" .
next
  assume "raised (fetch_one fuel cfg e cur args kw w)"
  from fetch_one_leaves_open[OF assms this]
  show "map_option cursor_closed (made_cursor w (fetch_one fuel cfg e cur args kw w)) \<noteq> Some True" .
next
  assume "raised (fetch_all fuel cfg e cur args kw w)"
  from fetch_all_leaves_open[OF assms this]
  show "map_option cursor_closed (made_cursor w (fetch_all fuel cfg e cur args kw w)) \<noteq> Some True" .
next
  assume "raised (fetch_n fuel cfg e cur n args kw w)"
  from fetch_n_leaves_open[OF assms this]
  show "map_option cursor_closed (made_cursor w (fetch_n fuel cfg e cur n args kw w)) \<noteq> Some True" .
next
  assume "raised (fetch_value fuel cfg e cur args kw w)"
  from fetch_value_leaves_open[OF assms this]
  show "map_option cursor_closed (made_cursor w (fetch_value fuel cfg e cur args kw w)) \<noteq> Some True" .
next
  assume "raised (fetch_values fuel cfg e cur args kw w)"
  from fetch_values_leaves_open[OF assms this]
  show "map_option cursor_closed (made_cursor w (fetch_values fuel cfg e cur args kw w)) \<noteq> Some True" .
qed

lemma cursor_execute_ok:
  assumes "run_statement e args kw = Inr rs"
  shows "\<exists>w'. cursor_execute e k args kw w = (Inr (rs_count rs), w') \<and>
              rows_left (cursors w' k) =
                map (shape_row (cursorclass (cursors w k)) (rs_columns rs)) (rs_rows rs)"
  using assms by (simp add: cursor_execute_def Let_def)

lemma fetch_loop_rows:
  "m \<le> length (rows_left (cursors w k)) \<Longrightarrow>
     fst (fetch_loop m k acc w) = acc @ take m (rows_left (cursors w k))"
proof (induction m arbitrary: acc w)
  case 0
  then show ?case by simp
next
  case (Suc m)
  then obtain row rest where rl: "rows_left (cursors w k) = row # rest"
    by (cases "rows_left (cursors w k)") auto
  let ?w1 = "w\<lparr>cursors := (cursors w)(k := (cursors w k)\<lparr>rows_left := rest\<rparr>)\<rparr>"
  have f: "cursor_fetchone k w = (row, ?w1)" using rl by (simp add: cursor_fetchone_def)
  have "m \<le> length (rows_left (cursors ?w1 k))" using Suc.prems rl by simp
  from Suc.IH[OF this, of "acc @ [row]"] f rl show ?case by simp
qed

lemma row_value_tuple: "row_value (PTuple vals) = Inr (scalar_or_row vals)"
  by (cases vals) (auto simp: row_value_def scalar_or_row_def)

lemma value_loop_rows:
  "rows_left (cursors w k) = map PTuple vss \<Longrightarrow> m \<le> length vss \<Longrightarrow>
     \<exists>w'. value_loop m k acc w = (Inr (acc @ map scalar_or_row (take m vss)), w')"
proof (induction m arbitrary: acc w vss)
  case 0
  then show ?case by simp
next
  case (Suc m)
  then obtain vals rest where vss: "vss = vals # rest" by (cases vss) auto
  let ?w1 = "w\<lparr>cursors := (cursors w)(k := (cursors w k)\<lparr>rows_left := map PTuple rest\<rparr>)\<rparr>"
  have f: "cursor_fetchone k w = (PTuple vals, ?w1)"
    using Suc.prems(1) vss by (simp add: cursor_fetchone_def)
  have "rows_left (cursors ?w1 k) = map PTuple rest" by simp
  from Suc.IH[OF this, of "acc @ [scalar_or_row vals]"] Suc.prems(2) vss
  obtain w' where "value_loop m k (acc @ [scalar_or_row vals]) ?w1 =
      (Inr ((acc @ [scalar_or_row vals]) @ map scalar_or_row (take m rest)), w')"
    by auto
  with f vss show ?case by (simp add: row_value_tuple)
qed

text \<open>
  Claim C5. Once \<open>fetch_n\<close> has its cursor, if the statement executes and reports as
  its count the number of rows available, \<open>fetch_n\<close> returns the first \<open>n\<close> of these
  rows in fetch order: \<open>min n count\<close> rows, never more than \<open>n\<close> (none for a negative
  \<open>n\<close>, where \<open>range\<close> is empty).
\<close>

theorem fetch_n_at_most_n:
  assumes "get_cursor fuel cfg e cur (Some (db_cursor_class cfg)) kw w = Some (Returned (lc, k, kw'), w1)"
    and "run_statement e args kw' = Inr rs"
    and "rs_count rs = int (length (rs_rows rs))"
  shows "\<exists>rows w'. fetch_n fuel cfg e cur n args kw w = Some (Returned rows, w') \<and>
           rows = take (nat n) (map (shape_row (cursorclass (cursors w1 k)) (rs_columns rs)) (rs_rows rs)) \<and>
           length rows = nat (min n (rs_count rs)) \<and>
           (0 \<le> n \<longrightarrow> int (length rows) = min n (rs_count rs) \<and> int (length rows) \<le> n)"
proof -
  let ?all = "map (shape_row (cursorclass (cursors w1 k)) (rs_columns rs)) (rs_rows rs)"
  from cursor_execute_ok[OF assms(2), of k w1] obtain w2 where
    ex: "cursor_execute e k args kw' w1 = (Inr (rs_count rs), w2)"
    and rl: "rows_left (cursors w2 k) = ?all" by blast
  let ?m = "nat (if rs_count rs > n then n else rs_count rs)"
  have le: "?m \<le> length (rows_left (cursors w2 k))" using rl assms(3) by auto
  obtain rows w3 where fl: "fetch_loop ?m k [] w2 = (rows, w3)" by (cases "fetch_loop ?m k [] w2")
  from fetch_loop_rows[OF le, of "[]"] fl rl have rows: "rows = take ?m ?all" by simp
  have tk: "take ?m ?all = take (nat n) ?all" using assms(3) by auto
  have body: "fetch_n_body n e args (lc, k, kw') w1 = (Inr rows, close_local lc w3)"
    using ex fl by (simp add: fetch_n_body_def Let_def)
  have "fetch_n fuel cfg e cur n args kw w = Some (Returned rows, close_local lc w3)"
    unfolding fetch_n_def using assms(1) body by (simp add: then_run_def)
  moreover have "rows = take (nat n) ?all" using rows tk by simp
  moreover have len: "length rows = nat (min n (rs_count rs))" using rows assms(3) by auto
  moreover have "0 \<le> n \<longrightarrow> int (length rows) = min n (rs_count rs) \<and> int (length rows) \<le> n"
    using len assms(3) by auto
  ultimately show ?thesis by blast
qed


lemma shape_row_Cursor: "map (shape_row Cursor cols) rows = map PTuple rows"
  by (simp add: shape_row_def)

lemma fetch_value_zero:
  assumes "get_cursor fuel cfg e cur None kw w = Some (Returned (lc, k, kw'), w1)"
    and "run_statement e args no_kwargs = Inr rs" and "rs_count rs = 0"
  shows "\<exists>w'. fetch_value fuel cfg e cur args kw w = Some (Returned PNone, w')"
proof -
  from cursor_execute_ok[OF assms(2), of k w1] obtain w2 where
    ex: "cursor_execute e k args no_kwargs w1 = (Inr (rs_count rs), w2)" by blast
  have "fetch_value_body e args (lc, k, kw') w1 = (Inr PNone, close_local lc w2)"
    using ex assms(3) by (simp add: fetch_value_body_def)
  with assms(1) show ?thesis by (simp add: fetch_value_def then_run_def)
qed

lemma fetch_value_first:
  assumes "get_cursor fuel cfg e cur None kw w = Some (Returned (lc, k, kw'), w1)"
    and "run_statement e args no_kwargs = Inr rs" and "rs_count rs \<noteq> 0"
    and "rs_rows rs = vals # others" and "cursorclass (cursors w1 k) = Cursor"
  shows "\<exists>w'. fetch_value fuel cfg e cur args kw w = Some (Returned (scalar_or_row vals), w')"
proof -
  from cursor_execute_ok[OF assms(2), of k w1] assms(4,5) obtain w2 where
    ex: "cursor_execute e k args no_kwargs w1 = (Inr (rs_count rs), w2)"
    and rl: "rows_left (cursors w2 k) = PTuple vals # map PTuple others"
    by (auto simp: shape_row_def)
  obtain w3 where f: "cursor_fetchone k w2 = (PTuple vals, w3)"
    using rl by (simp add: cursor_fetchone_def)
  have "fetch_value_body e args (lc, k, kw') w1 = (Inr (scalar_or_row vals), close_local lc w3)"
    using ex f assms(3) by (simp add: fetch_value_body_def row_value_tuple)
  with assms(1) show ?thesis by (simp add: fetch_value_def then_run_def)
qed

lemma fetch_values_all:
  assumes "get_cursor fuel cfg e cur None kw w = Some (Returned (lc, k, kw'), w1)"
    and "run_statement e args no_kwargs = Inr rs" and "rs_count rs = int (length (rs_rows rs))"
    and "cursorclass (cursors w1 k) = Cursor"
  shows "\<exists>w'. fetch_values fuel cfg e cur args kw w =
              Some (Returned (map scalar_or_row (rs_rows rs)), w')"
proof -
  from cursor_execute_ok[OF assms(2), of k w1] assms(4) obtain w2 where
    ex: "cursor_execute e k args no_kwargs w1 = (Inr (rs_count rs), w2)"
    and rl: "rows_left (cursors w2 k) = map PTuple (rs_rows rs)"
    by (auto simp: shape_row_Cursor)
  from value_loop_rows[OF rl, of "length (rs_rows rs)" "[]"] obtain w3 where
    "value_loop (length (rs_rows rs)) k [] w2 = (Inr (map scalar_or_row (rs_rows rs)), w3)"
    by auto
  then have "fetch_values_body e args (lc, k, kw') w1 =
      (Inr (map scalar_or_row (rs_rows rs)), close_local lc w3)"
    using ex assms(3) by (simp add: fetch_values_body_def)
  with assms(1) show ?thesis by (simp add: fetch_values_def then_run_def)
qed

lemma yield_values_all:
  assumes "get_cursor fuel cfg e cur None kw w = Some (Returned (lc, k, kw'), w1)"
    and "run_statement e args kw' = Inr rs" and "rs_count rs = int (length (rs_rows rs))"
    and "cursorclass (cursors w1 k) = Cursor"
  shows "\<exists>w'. yield_values fuel cfg e cur args kw w =
              Some (Returned (map scalar_or_row (rs_rows rs)), w')"
proof -
  from cursor_execute_ok[OF assms(2), of k w1] assms(4) obtain w2 where
    ex: "cursor_execute e k args kw' w1 = (Inr (rs_count rs), w2)"
    and rl: "rows_left (cursors w2 k) = map PTuple (rs_rows rs)"
    by (auto simp: shape_row_Cursor)
  from value_loop_rows[OF rl, of "length (rs_rows rs)" "[]"] obtain w3 where
    "value_loop (length (rs_rows rs)) k [] w2 = (Inr (map scalar_or_row (rs_rows rs)), w3)"
    by auto
  then have "yield_values_body e args (lc, k, kw') w1 =
      (Inr (map scalar_or_row (rs_rows rs)), close_local lc w3)"
    using ex assms(3) by (simp add: yield_values_body_def)
  with assms(1) show ?thesis by (simp add: yield_values_def then_run_def)
qed

lemma row_value_dict: "row_value (PDict d) = (if length d = 1 then Inl KeyError else Inr (PDict d))"
  by (simp add: row_value_def)

lemma row_value_dict_row:
  assumes "length vals = length cols"
  shows "row_value (shape_row DictCursor cols vals) =
           (if length cols = 1 then Inl KeyError else Inr (PDict (zip cols vals)))"
  using assms by (simp add: shape_row_def row_value_dict)

lemma value_loop_whole:
  "\<forall>row \<in> set (rows_left (cursors w k)). row_value row = Inr row \<Longrightarrow>
   m \<le> length (rows_left (cursors w k)) \<Longrightarrow>
     \<exists>w'. value_loop m k acc w = (Inr (acc @ take m (rows_left (cursors w k))), w')"
proof (induction m arbitrary: acc w)
  case 0
  then show ?case by simp
next
  case (Suc m)
  then obtain row rest where rl: "rows_left (cursors w k) = row # rest"
    by (cases "rows_left (cursors w k)") auto
  let ?w1 = "w\<lparr>cursors := (cursors w)(k := (cursors w k)\<lparr>rows_left := rest\<rparr>)\<rparr>"
  have f: "cursor_fetchone k w = (row, ?w1)" using rl by (simp add: cursor_fetchone_def)
  have rv: "row_value row = Inr row" using Suc.prems(1) rl by simp
  have a: "\<forall>row \<in> set (rows_left (cursors ?w1 k)). row_value row = Inr row"
    using Suc.prems(1) rl by simp
  have b: "m \<le> length (rows_left (cursors ?w1 k))" using Suc.prems(2) rl by simp
  from Suc.IH[OF a b, of "acc @ [row]"] obtain w' where
    "value_loop m k (acc @ [row]) ?w1 = (Inr ((acc @ [row]) @ take m rest), w')" by auto
  with f rv rl show ?case by simp
qed

lemma value_loop_raise:
  assumes "rows_left (cursors w k) = row # rest" and "row_value row = Inl x"
  shows "\<exists>w'. value_loop (Suc m) k acc w = (Inl x, w')"
  using assms by (simp add: cursor_fetchone_def)

lemma fetch_value_any:
  assumes "get_cursor fuel cfg e cur None kw w = Some (Returned (lc, k, kw'), w1)"
    and "run_statement e args no_kwargs = Inr rs" and "rs_count rs \<noteq> 0"
    and "rs_rows rs = vals # others"
  shows "\<exists>w'. fetch_value fuel cfg e cur args kw w =
           Some (case row_value (shape_row (cursorclass (cursors w1 k)) (rs_columns rs) vals) of
                   Inl x \<Rightarrow> Raised x | Inr v \<Rightarrow> Returned v, w')"
proof -
  let ?row = "shape_row (cursorclass (cursors w1 k)) (rs_columns rs) vals"
  from cursor_execute_ok[OF assms(2), of k w1] assms(4) obtain w2 where
    ex: "cursor_execute e k args no_kwargs w1 = (Inr (rs_count rs), w2)"
    and rl: "rows_left (cursors w2 k) =
               ?row # map (shape_row (cursorclass (cursors w1 k)) (rs_columns rs)) others"
    by auto
  obtain w3 where f: "cursor_fetchone k w2 = (?row, w3)"
    using rl by (simp add: cursor_fetchone_def)
  show ?thesis
  proof (cases "row_value ?row")
    case (Inl x)
    with ex f assms(3) have "fetch_value_body e args (lc, k, kw') w1 = (Inl x, w3)"
      by (simp add: fetch_value_body_def)
    with assms(1) Inl show ?thesis by (simp add: fetch_value_def then_run_def)
  next
    case (Inr v)
    with ex f assms(3) have "fetch_value_body e args (lc, k, kw') w1 = (Inr v, close_local lc w3)"
      by (simp add: fetch_value_body_def)
    with assms(1) Inr show ?thesis by (simp add: fetch_value_def then_run_def)
  qed
qed

lemma value_loop_shaped:
  assumes "rows_left (cursors w2 k) = map (shape_row cc cols) rows"
  shows "(\<forall>vals \<in> set rows. row_value (shape_row cc cols vals) = Inr (shape_row cc cols vals)) \<longrightarrow>
           (\<exists>w3. value_loop (length rows) k [] w2 = (Inr (map (shape_row cc cols) rows), w3))"
    and "rows \<noteq> [] \<longrightarrow> row_value (shape_row cc cols (hd rows)) = Inl x \<longrightarrow>
           (\<exists>w3. value_loop (length rows) k [] w2 = (Inl x, w3))"
proof -
  show "(\<forall>vals \<in> set rows. row_value (shape_row cc cols vals) = Inr (shape_row cc cols vals)) \<longrightarrow>
           (\<exists>w3. value_loop (length rows) k [] w2 = (Inr (map (shape_row cc cols) rows), w3))"
  proof
    assume a: "\<forall>vals \<in> set rows. row_value (shape_row cc cols vals) = Inr (shape_row cc cols vals)"
    have "\<forall>row \<in> set (rows_left (cursors w2 k)). row_value row = Inr row"
      using a assms by auto
    from value_loop_whole[OF this, of "length rows" "[]"] assms
    show "\<exists>w3. value_loop (length rows) k [] w2 = (Inr (map (shape_row cc cols) rows), w3)"
      by simp
  qed
  show "rows \<noteq> [] \<longrightarrow> row_value (shape_row cc cols (hd rows)) = Inl x \<longrightarrow>
           (\<exists>w3. value_loop (length rows) k [] w2 = (Inl x, w3))"
  proof (intro impI)
    assume ne: "rows \<noteq> []" and rv: "row_value (shape_row cc cols (hd rows)) = Inl x"
    then obtain vals others where r: "rows = vals # others" by (cases rows) auto
    with assms have rl: "rows_left (cursors w2 k) =
        shape_row cc cols vals # map (shape_row cc cols) others" by simp
    from value_loop_raise[OF rl, of x "length others" "[]"] rv r
    show "\<exists>w3. value_loop (length rows) k [] w2 = (Inl x, w3)" by simp
  qed
qed

lemma fetch_values_any:
  assumes "get_cursor fuel cfg e cur None kw w = Some (Returned (lc, k, kw'), w1)"
    and "run_statement e args no_kwargs = Inr rs" and "rs_count rs = int (length (rs_rows rs))"
  shows "(\<forall>vals \<in> set (rs_rows rs).
            row_value (shape_row (cursorclass (cursors w1 k)) (rs_columns rs) vals) =
              Inr (shape_row (cursorclass (cursors w1 k)) (rs_columns rs) vals)) \<longrightarrow>
         (\<exists>w'. fetch_values fuel cfg e cur args kw w =
            Some (Returned (map (shape_row (cursorclass (cursors w1 k)) (rs_columns rs)) (rs_rows rs)), w'))"
    and "rs_rows rs \<noteq> [] \<longrightarrow>
         row_value (shape_row (cursorclass (cursors w1 k)) (rs_columns rs) (hd (rs_rows rs))) = Inl x \<longrightarrow>
         (\<exists>w'. fetch_values fuel cfg e cur args kw w = Some (Raised x, w'))"
proof -
  from cursor_execute_ok[OF assms(2), of k w1] obtain w2 where
    ex: "cursor_execute e k args no_kwargs w1 = (Inr (rs_count rs), w2)"
    and rl: "rows_left (cursors w2 k) =
               map (shape_row (cursorclass (cursors w1 k)) (rs_columns rs)) (rs_rows rs)"
    by auto
  note vl = value_loop_shaped[OF rl]
  show "(\<forall>vals \<in> set (rs_rows rs).
            row_value (shape_row (cursorclass (cursors w1 k)) (rs_columns rs) vals) =
              Inr (shape_row (cursorclass (cursors w1 k)) (rs_columns rs) vals)) \<longrightarrow>
         (\<exists>w'. fetch_values fuel cfg e cur args kw w =
            Some (Returned (map (shape_row (cursorclass (cursors w1 k)) (rs_columns rs)) (rs_rows rs)), w'))"
    using vl(1) ex assms(1,3)
    by (auto simp: fetch_values_def fetch_values_body_def then_run_def)
  show "rs_rows rs \<noteq> [] \<longrightarrow>
         row_value (shape_row (cursorclass (cursors w1 k)) (rs_columns rs) (hd (rs_rows rs))) = Inl x \<longrightarrow>
         (\<exists>w'. fetch_values fuel cfg e cur args kw w = Some (Raised x, w'))"
    using vl(2)[of x] ex assms(1,3)
    by (auto simp: fetch_values_def fetch_values_body_def then_run_def)
qed

lemma yield_values_any:
  assumes "get_cursor fuel cfg e cur None kw w = Some (Returned (lc, k, kw'), w1)"
    and "run_statement e args kw' = Inr rs" and "rs_count rs = int (length (rs_rows rs))"
  shows "(\<forall>vals \<in> set (rs_rows rs).
            row_value (shape_row (cursorclass (cursors w1 k)) (rs_columns rs) vals) =
              Inr (shape_row (cursorclass (cursors w1 k)) (rs_columns rs) vals)) \<longrightarrow>
         (\<exists>w'. yield_values fuel cfg e cur args kw w =
            Some (Returned (map (shape_row (cursorclass (cursors w1 k)) (rs_columns rs)) (rs_rows rs)), w'))"
    and "rs_rows rs \<noteq> [] \<longrightarrow>
         row_value (shape_row (cursorclass (cursors w1 k)) (rs_columns rs) (hd (rs_rows rs))) = Inl x \<longrightarrow>
         (\<exists>w'. yield_values fuel cfg e cur args kw w = Some (Raised x, w'))"
proof -
  from cursor_execute_ok[OF assms(2), of k w1] obtain w2 where
    ex: "cursor_execute e k args kw' w1 = (Inr (rs_count rs), w2)"
    and rl: "rows_left (cursors w2 k) =
               map (shape_row (cursorclass (cursors w1 k)) (rs_columns rs)) (rs_rows rs)"
    by auto
  note vl = value_loop_shaped[OF rl]
  show "(\<forall>vals \<in> set (rs_rows rs).
            row_value (shape_row (cursorclass (cursors w1 k)) (rs_columns rs) vals) =
              Inr (shape_row (cursorclass (cursors w1 k)) (rs_columns rs) vals)) \<longrightarrow>
         (\<exists>w'. yield_values fuel cfg e cur args kw w =
            Some (Returned (map (shape_row (cursorclass (cursors w1 k)) (rs_columns rs)) (rs_rows rs)), w'))"
    using vl(1) ex assms(1,3)
    by (auto simp: yield_values_def yield_values_body_def then_run_def)
  show "rs_rows rs \<noteq> [] \<longrightarrow>
         row_value (shape_row (cursorclass (cursors w1 k)) (rs_columns rs) (hd (rs_rows rs))) = Inl x \<longrightarrow>
         (\<exists>w'. yield_values fuel cfg e cur args kw w = Some (Raised x, w'))"
    using vl(2)[of x] ex assms(1,3)
    by (auto simp: yield_values_def yield_values_body_def then_run_def)
qed

text \<open>
  Claim C6, as amended. \<open>fetch_value\<close> returns \<open>None\<close> when the count is zero, whatever
  the cursor. With a cursor that hands out positional rows (class \<open>Cursor\<close>), a row of
  one column gives that column's value and any other row comes back whole, from
  \<open>fetch_value\<close> for the first row and from \<open>fetch_values\<close> and \<open>yield_values\<close> for every
  row in order. With a cursor that hands out dictionaries (class \<open>DictCursor\<close>, given by
  the caller), rows of more than one column come back whole as well, but on a row of one
  column \<open>row[0]\<close> raises KeyError in all three helpers.
\<close>

theorem single_column_rule:
  assumes "get_cursor fuel cfg e cur None kw w = Some (Returned (lc, k, kw'), w1)"
    and "run_statement e args no_kwargs = Inr rs"
    and "run_statement e args kw' = Inr rs"
  shows "scalar_or_row [v] = v \<and>
         (length vals > 1 \<longrightarrow> scalar_or_row vals = PTuple vals) \<and>
         (rs_count rs = 0 \<longrightarrow>
            (\<exists>w'. fetch_value fuel cfg e cur args kw w = Some (Returned PNone, w'))) \<and>
         (cursorclass (cursors w1 k) = Cursor \<longrightarrow>
            (rs_count rs \<noteq> 0 \<longrightarrow> rs_rows rs \<noteq> [] \<longrightarrow>
               (\<exists>w'. fetch_value fuel cfg e cur args kw w =
                        Some (Returned (scalar_or_row (hd (rs_rows rs))), w'))) \<and>
            (rs_count rs = int (length (rs_rows rs)) \<longrightarrow>
               (\<exists>w'. fetch_values fuel cfg e cur args kw w =
                        Some (Returned (map scalar_or_row (rs_rows rs)), w')) \<and>
               (\<exists>w'. yield_values fuel cfg e cur args kw w =
                        Some (Returned (map scalar_or_row (rs_rows rs)), w')))) \<and>
         (cursorclass (cursors w1 k) = DictCursor \<longrightarrow>
          (\<forall>vals \<in> set (rs_rows rs). length vals = length (rs_columns rs)) \<longrightarrow>
            (length (rs_columns rs) \<noteq> 1 \<longrightarrow>
               (rs_count rs \<noteq> 0 \<longrightarrow> rs_rows rs \<noteq> [] \<longrightarrow>
                  (\<exists>w'. fetch_value fuel cfg e cur args kw w =
                           Some (Returned (PDict (zip (rs_columns rs) (hd (rs_rows rs)))), w'))) \<and>
               (rs_count rs = int (length (rs_rows rs)) \<longrightarrow>
                  (\<exists>w'. fetch_values fuel cfg e cur args kw w =
                           Some (Returned (map (\<lambda>vals. PDict (zip (rs_columns rs) vals)) (rs_rows rs)), w')) \<and>
                  (\<exists>w'. yield_values fuel cfg e cur args kw w =
                           Some (Returned (map (\<lambda>vals. PDict (zip (rs_columns rs) vals)) (rs_rows rs)), w')))) \<and>
            (length (rs_columns rs) = 1 \<longrightarrow> rs_rows rs \<noteq> [] \<longrightarrow>
               (rs_count rs \<noteq> 0 \<longrightarrow>
                  (\<exists>w'. fetch_value fuel cfg e cur args kw w = Some (Raised KeyError, w'))) \<and>
               (rs_count rs = int (length (rs_rows rs)) \<longrightarrow>
                  (\<exists>w'. fetch_values fuel cfg e cur args kw w = Some (Raised KeyError, w')) \<and>
                  (\<exists>w'. yield_values fuel cfg e cur args kw w = Some (Raised KeyError, w')))))"
proof -
  have s1: "scalar_or_row [v] = v" by (simp add: scalar_or_row_def)
  have s2: "length vals > 1 \<longrightarrow> scalar_or_row vals = PTuple vals" by (simp add: scalar_or_row_def)
  have zero: "rs_count rs = 0 \<longrightarrow>
            (\<exists>w'. fetch_value fuel cfg e cur args kw w = Some (Returned PNone, w'))"
    using fetch_value_zero[OF assms(1,2)] by blast
  have tuples: "cursorclass (cursors w1 k) = Cursor \<longrightarrow>
            (rs_count rs \<noteq> 0 \<longrightarrow> rs_rows rs \<noteq> [] \<longrightarrow>
               (\<exists>w'. fetch_value fuel cfg e cur args kw w =
                        Some (Returned (scalar_or_row (hd (rs_rows rs))), w'))) \<and>
            (rs_count rs = int (length (rs_rows rs)) \<longrightarrow>
               (\<exists>w'. fetch_values fuel cfg e cur args kw w =
                        Some (Returned (map scalar_or_row (rs_rows rs)), w')) \<and>
               (\<exists>w'. yield_values fuel cfg e cur args kw w =
                        Some (Returned (map scalar_or_row (rs_rows rs)), w')))"
  proof (intro impI conjI)
    assume cl: "cursorclass (cursors w1 k) = Cursor"
      and c: "rs_count rs \<noteq> 0" and "rs_rows rs \<noteq> []"
    then obtain vals' others where r: "rs_rows rs = vals' # others" by (cases "rs_rows rs") auto
    from fetch_value_first[OF assms(1,2) c r cl] r
    show "\<exists>w'. fetch_value fuel cfg e cur args kw w =
                     Some (Returned (scalar_or_row (hd (rs_rows rs))), w')" by simp
  next
    assume cl: "cursorclass (cursors w1 k) = Cursor"
      and c: "rs_count rs = int (length (rs_rows rs))"
    from fetch_values_all[OF assms(1,2) c cl]
    show "\<exists>w'. fetch_values fuel cfg e cur args kw w =
                     Some (Returned (map scalar_or_row (rs_rows rs)), w')" .
  next
    assume cl: "cursorclass (cursors w1 k) = Cursor"
      and c: "rs_count rs = int (length (rs_rows rs))"
    from yield_values_all[OF assms(1,3) c cl]
    show "\<exists>w'. yield_values fuel cfg e cur args kw w =
                     Some (Returned (map scalar_or_row (rs_rows rs)), w')" .
  qed
  have dicts: "cursorclass (cursors w1 k) = DictCursor \<longrightarrow>
          (\<forall>vals \<in> set (rs_rows rs). length vals = length (rs_columns rs)) \<longrightarrow>
            (length (rs_columns rs) \<noteq> 1 \<longrightarrow>
               (rs_count rs \<noteq> 0 \<longrightarrow> rs_rows rs \<noteq> [] \<longrightarrow>
                  (\<exists>w'. fetch_value fuel cfg e cur args kw w =
                           Some (Returned (PDict (zip (rs_columns rs) (hd (rs_rows rs)))), w'))) \<and>
               (rs_count rs = int (length (rs_rows rs)) \<longrightarrow>
                  (\<exists>w'. fetch_values fuel cfg e cur args kw w =
                           Some (Returned (map (\<lambda>vals. PDict (zip (rs_columns rs) vals)) (rs_rows rs)), w')) \<and>
                  (\<exists>w'. yield_values fuel cfg e cur args kw w =
                           Some (Returned (map (\<lambda>vals. PDict (zip (rs_columns rs) vals)) (rs_rows rs)), w')))) \<and>
            (length (rs_columns rs) = 1 \<longrightarrow> rs_rows rs \<noteq> [] \<longrightarrow>
               (rs_count rs \<noteq> 0 \<longrightarrow>
                  (\<exists>w'. fetch_value fuel cfg e cur args kw w = Some (Raised KeyError, w'))) \<and>
               (rs_count rs = int (length (rs_rows rs)) \<longrightarrow>
                  (\<exists>w'. fetch_values fuel cfg e cur args kw w = Some (Raised KeyError, w')) \<and>
                  (\<exists>w'. yield_values fuel cfg e cur args kw w = Some (Raised KeyError, w'))))"
  proof (intro impI)
    assume cl: "cursorclass (cursors w1 k) = DictCursor"
      and wf: "\<forall>vals \<in> set (rs_rows rs). length vals = length (rs_columns rs)"
    have rv: "\<And>vals. vals \<in> set (rs_rows rs) \<Longrightarrow>
        row_value (shape_row (cursorclass (cursors w1 k)) (rs_columns rs) vals) =
          (if length (rs_columns rs) = 1 then Inl KeyError
           else Inr (PDict (zip (rs_columns rs) vals)))"
      using wf cl by (simp add: row_value_dict_row)
    have sh: "\<And>vals. shape_row (cursorclass (cursors w1 k)) (rs_columns rs) vals =
        PDict (zip (rs_columns rs) vals)"
      using cl by (simp add: shape_row_def)
    have sh': "shape_row (cursorclass (cursors w1 k)) (rs_columns rs) =
        (\<lambda>vals. PDict (zip (rs_columns rs) vals))"
      by (rule ext) (rule sh)
    have whole: "length (rs_columns rs) \<noteq> 1 \<longrightarrow>
               (rs_count rs \<noteq> 0 \<longrightarrow> rs_rows rs \<noteq> [] \<longrightarrow>
                  (\<exists>w'. fetch_value fuel cfg e cur args kw w =
                           Some (Returned (PDict (zip (rs_columns rs) (hd (rs_rows rs)))), w'))) \<and>
               (rs_count rs = int (length (rs_rows rs)) \<longrightarrow>
                  (\<exists>w'. fetch_values fuel cfg e cur args kw w =
                           Some (Returned (map (\<lambda>vals. PDict (zip (rs_columns rs) vals)) (rs_rows rs)), w')) \<and>
                  (\<exists>w'. yield_values fuel cfg e cur args kw w =
                           Some (Returned (map (\<lambda>vals. PDict (zip (rs_columns rs) vals)) (rs_rows rs)), w')))"
    proof (intro impI conjI)
      assume n1: "length (rs_columns rs) \<noteq> 1" and c: "rs_count rs \<noteq> 0" and "rs_rows rs \<noteq> []"
      then obtain vals' others where r: "rs_rows rs = vals' # others"
        by (cases "rs_rows rs") auto
      from fetch_value_any[OF assms(1,2) c r] rv[of vals'] r n1
      show "\<exists>w'. fetch_value fuel cfg e cur args kw w =
                           Some (Returned (PDict (zip (rs_columns rs) (hd (rs_rows rs)))), w')"
        by simp
    next
      assume n1: "length (rs_columns rs) \<noteq> 1" and c: "rs_count rs = int (length (rs_rows rs))"
      from rv n1 have "\<forall>vals \<in> set (rs_rows rs).
            row_value (shape_row (cursorclass (cursors w1 k)) (rs_columns rs) vals) =
              Inr (shape_row (cursorclass (cursors w1 k)) (rs_columns rs) vals)"
        by (simp add: sh)
      with fetch_values_any(1)[OF assms(1,2) c]
      show "\<exists>w'. fetch_values fuel cfg e cur args kw w =
               Some (Returned (map (\<lambda>vals. PDict (zip (rs_columns rs) vals)) (rs_rows rs)), w')"
        unfolding sh' by blast
    next
      assume n1: "length (rs_columns rs) \<noteq> 1" and c: "rs_count rs = int (length (rs_rows rs))"
      from rv n1 have "\<forall>vals \<in> set (rs_rows rs).
            row_value (shape_row (cursorclass (cursors w1 k)) (rs_columns rs) vals) =
              Inr (shape_row (cursorclass (cursors w1 k)) (rs_columns rs) vals)"
        by (simp add: sh)
      with yield_values_any(1)[OF assms(1,3) c]
      show "\<exists>w'. yield_values fuel cfg e cur args kw w =
               Some (Returned (map (\<lambda>vals. PDict (zip (rs_columns rs) vals)) (rs_rows rs)), w')"
        unfolding sh' by blast
    qed
    have err: "length (rs_columns rs) = 1 \<longrightarrow> rs_rows rs \<noteq> [] \<longrightarrow>
               (rs_count rs \<noteq> 0 \<longrightarrow>
                  (\<exists>w'. fetch_value fuel cfg e cur args kw w = Some (Raised KeyError, w'))) \<and>
               (rs_count rs = int (length (rs_rows rs)) \<longrightarrow>
                  (\<exists>w'. fetch_values fuel cfg e cur args kw w = Some (Raised KeyError, w')) \<and>
                  (\<exists>w'. yield_values fuel cfg e cur args kw w = Some (Raised KeyError, w')))"
    proof (intro impI conjI)
      assume o: "length (rs_columns rs) = 1" and ne: "rs_rows rs \<noteq> []" and c: "rs_count rs \<noteq> 0"
      from ne obtain vals' others where r: "rs_rows rs = vals' # others"
        by (cases "rs_rows rs") auto
      from fetch_value_any[OF assms(1,2) c r] rv[of vals'] r o
      show "\<exists>w'. fetch_value fuel cfg e cur args kw w = Some (Raised KeyError, w')" by simp
    next
      assume o: "length (rs_columns rs) = 1" and ne: "rs_rows rs \<noteq> []"
        and c: "rs_count rs = int (length (rs_rows rs))"
      from ne have "hd (rs_rows rs) \<in> set (rs_rows rs)" by simp
      from rv[OF this] o have
        "row_value (shape_row (cursorclass (cursors w1 k)) (rs_columns rs) (hd (rs_rows rs))) =
           Inl KeyError" by simp
      with fetch_values_any(2)[OF assms(1,2) c, of KeyError] ne
      show "\<exists>w'. fetch_values fuel cfg e cur args kw w = Some (Raised KeyError, w')" by simp
    next
      assume o: "length (rs_columns rs) = 1" and ne: "rs_rows rs \<noteq> []"
        and c: "rs_count rs = int (length (rs_rows rs))"
      from ne have "hd (rs_rows rs) \<in> set (rs_rows rs)" by simp
      from rv[OF this] o have
        "row_value (shape_row (cursorclass (cursors w1 k)) (rs_columns rs) (hd (rs_rows rs))) =
           Inl KeyError" by simp
      with yield_values_any(2)[OF assms(1,3) c, of KeyError] ne
      show "\<exists>w'. yield_values fuel cfg e cur args kw w = Some (Raised KeyError, w')" by simp
    qed
    from whole err show "(length (rs_columns rs) \<noteq> 1 \<longrightarrow>
               (rs_count rs \<noteq> 0 \<longrightarrow> rs_rows rs \<noteq> [] \<longrightarrow>
                  (\<exists>w'. fetch_value fuel cfg e cur args kw w =
                           Some (Returned (PDict (zip (rs_columns rs) (hd (rs_rows rs)))), w'))) \<and>
               (rs_count rs = int (length (rs_rows rs)) \<longrightarrow>
                  (\<exists>w'. fetch_values fuel cfg e cur args kw w =
                           Some (Returned (map (\<lambda>vals. PDict (zip (rs_columns rs) vals)) (rs_rows rs)), w')) \<and>
                  (\<exists>w'. yield_values fuel cfg e cur args kw w =
                           Some (Returned (map (\<lambda>vals. PDict (zip (rs_columns rs) vals)) (rs_rows rs)), w')))) \<and>
            (length (rs_columns rs) = 1 \<longrightarrow> rs_rows rs \<noteq> [] \<longrightarrow>
               (rs_count rs \<noteq> 0 \<longrightarrow>
                  (\<exists>w'. fetch_value fuel cfg e cur args kw w = Some (Raised KeyError, w'))) \<and>
               (rs_count rs = int (length (rs_rows rs)) \<longrightarrow>
                  (\<exists>w'. fetch_values fuel cfg e cur args kw w = Some (Raised KeyError, w')) \<and>
                  (\<exists>w'. yield_values fuel cfg e cur args kw w = Some (Raised KeyError, w'))))"
      by blast
  qed
  from s1 s2 zero tuples dicts show ?thesis by blast
qed

lemma get_cursor_cfg:
  "get_cursor fuel (cfg\<lparr>db_cursor_class := cc\<rparr>) e cur req kw w = get_cursor fuel cfg e cur req kw w"
proof -
  have "get_connection fuel (cfg\<lparr>db_cursor_class := cc\<rparr>) e cur (pool w) =
        get_connection fuel cfg e cur (pool w)"
    by (simp add: get_connection_def)
  then show ?thesis
    by (cases "kw_connection kw"; cases "kw_cursor kw") (simp_all add: get_cursor_def)
qed

lemma makes_cursor_get_cursor:
  assumes "makes_cursor fuel cfg e cur kw w"
  shows "locally_owned kw \<and>
         (\<exists>kw' w1. get_cursor fuel cfg e cur req kw w =
                      Some (Returned (Some (next_cursor w), next_cursor w, kw'), w1) \<and>
                    next_cursor w1 = Suc (next_cursor w) \<and>
                    cursorclass (cursors w1 (next_cursor w)) =
                      (case req of None \<Rightarrow> default_cursorclass e | Some cc \<Rightarrow> cc))"
proof (cases "kw_connection kw")
  case (Some c)
  then show ?thesis
    by (simp add: get_cursor_def conn_cursor_def locally_owned_def Let_def)
next
  case None
  with assms have kc: "kw_cursor kw = None"
    and "case get_connection fuel cfg e cur (pool w) of Some (Returned c, p) \<Rightarrow> True | _ \<Rightarrow> False"
    by (auto simp: makes_cursor_def)
  then obtain c p where g: "get_connection fuel cfg e cur (pool w) = Some (Returned c, p)"
    by (auto split: option.splits prod.splits outcome.splits)
  with None kc show ?thesis
    by (simp add: get_cursor_def conn_cursor_def locally_owned_def Let_def)
qed

lemma helper_made_class:
  assumes "makes_cursor fuel cfg e cur kw w"
    and "\<And>c w1 q w2. body c w1 = (q, w2) \<Longrightarrow> same_classes w1 w2"
  shows "map_option cursorclass (made_cursor w (then_run (get_cursor fuel cfg e cur req kw w) body)) =
           Some (case req of None \<Rightarrow> default_cursorclass e | Some cc \<Rightarrow> cc)"
proof -
  from makes_cursor_get_cursor[OF assms(1), of req] obtain kw' w1 where
    g: "get_cursor fuel cfg e cur req kw w =
          Some (Returned (Some (next_cursor w), next_cursor w, kw'), w1)"
    and n: "next_cursor w1 = Suc (next_cursor w)"
    and c: "cursorclass (cursors w1 (next_cursor w)) =
              (case req of None \<Rightarrow> default_cursorclass e | Some cc \<Rightarrow> cc)"
    by blast
  obtain q w2 where b: "body (Some (next_cursor w), next_cursor w, kw') w1 = (q, w2)"
    by (cases "body (Some (next_cursor w), next_cursor w, kw') w1")
  from assms(2)[OF b] n c have
    "next_cursor w2 \<noteq> next_cursor w"
    "cursorclass (cursors w2 (next_cursor w)) =
       (case req of None \<Rightarrow> default_cursorclass e | Some cc \<Rightarrow> cc)"
    by (auto simp: same_classes_def)
  with g b show ?thesis
    by (cases q) (simp_all add: then_run_def made_cursor_def)
qed

text \<open>
  Claim C10. \<open>fetch_value\<close>, \<open>fetch_values\<close> and \<open>yield_values\<close> do not depend on
  \<open>db_cursor_class\<close>: a cursor they make has the client's default class, while a cursor
  made by \<open>execute\<close>, \<open>fetch_one\<close>, \<open>fetch_all\<close>, \<open>fetch_n\<close>, \<open>yield_rows\<close> or
  \<open>yield_objects\<close> has the class \<open>db_cursor_class\<close>. With the default class \<open>Cursor\<close>,
  rows of more than one column come back from the three value helpers as tuples,
  whatever \<open>db_cursor_class\<close> is.
\<close>

theorem value_helpers_default_cursor_class:
  "fetch_value fuel (cfg\<lparr>db_cursor_class := cc\<rparr>) e cur args kw w = fetch_value fuel cfg e cur args kw w \<and>
   fetch_values fuel (cfg\<lparr>db_cursor_class := cc\<rparr>) e cur args kw w = fetch_values fuel cfg e cur args kw w \<and>
   yield_values fuel (cfg\<lparr>db_cursor_class := cc\<rparr>) e cur args kw w = yield_values fuel cfg e cur args kw w \<and>
   (makes_cursor fuel cfg e cur kw w \<longrightarrow>
      map_option cursorclass (made_cursor w (fetch_value fuel cfg e cur args kw w)) =
        Some (default_cursorclass e) \<and>
      map_option cursorclass (made_cursor w (fetch_values fuel cfg e cur args kw w)) =
        Some (default_cursorclass e) \<and>
      map_option cursorclass (made_cursor w (yield_values fuel cfg e cur args kw w)) =
        Some (default_cursorclass e) \<and>
      map_option cursorclass (made_cursor w (execute fuel cfg e cur args kw w)) =
        Some (db_cursor_class cfg) \<and>
      map_option cursorclass (made_cursor w (fetch_one fuel cfg e cur args kw w)) =
        Some (db_cursor_class cfg) \<and>
      map_option cursorclass (made_cursor w (fetch_all fuel cfg e cur args kw w)) =
        Some (db_cursor_class cfg) \<and>
      map_option cursorclass (made_cursor w (fetch_n fuel cfg e cur n args kw w)) =
        Some (db_cursor_class cfg) \<and>
      map_option cursorclass (made_cursor w (yield_rows fuel cfg e cur args kw w)) =
        Some (db_cursor_class cfg) \<and>
      map_option cursorclass (made_cursor w (yield_objects fuel cfg e cur args kw w)) =
        Some (db_cursor_class cfg)) \<and>
   (makes_cursor fuel cfg e cur kw w \<longrightarrow> default_cursorclass e = Cursor \<longrightarrow>
    (\<forall>kw'. run_statement e args kw' = Inr rs) \<longrightarrow>
    rs_count rs = int (length (rs_rows rs)) \<longrightarrow>
    (\<forall>vals \<in> set (rs_rows rs). length vals > 1) \<longrightarrow>
      (\<exists>w2. fetch_values fuel (cfg\<lparr>db_cursor_class := cc\<rparr>) e cur args kw w =
               Some (Returned (map PTuple (rs_rows rs)), w2)) \<and>
      (\<exists>w2. yield_values fuel (cfg\<lparr>db_cursor_class := cc\<rparr>) e cur args kw w =
               Some (Returned (map PTuple (rs_rows rs)), w2)) \<and>
      (rs_rows rs \<noteq> [] \<longrightarrow>
         (\<exists>w2. fetch_value fuel (cfg\<lparr>db_cursor_class := cc\<rparr>) e cur args kw w =
                  Some (Returned (PTuple (hd (rs_rows rs))), w2))))"
proof -
  have indep: "fetch_value fuel (cfg\<lparr>db_cursor_class := cc\<rparr>) e cur args kw w = fetch_value fuel cfg e cur args kw w"
    "fetch_values fuel (cfg\<lparr>db_cursor_class := cc\<rparr>) e cur args kw w = fetch_values fuel cfg e cur args kw w"
    "yield_values fuel (cfg\<lparr>db_cursor_class := cc\<rparr>) e cur args kw w = yield_values fuel cfg e cur args kw w"
    by (simp_all add: fetch_value_def fetch_values_def yield_values_def get_cursor_cfg)
  have classes: "makes_cursor fuel cfg e cur kw w \<longrightarrow>
      map_option cursorclass (made_cursor w (fetch_value fuel cfg e cur args kw w)) =
        Some (default_cursorclass e) \<and>
      map_option cursorclass (made_cursor w (fetch_values fuel cfg e cur args kw w)) =
        Some (default_cursorclass e) \<and>
      map_option cursorclass (made_cursor w (yield_values fuel cfg e cur args kw w)) =
        Some (default_cursorclass e) \<and>
      map_option cursorclass (made_cursor w (execute fuel cfg e cur args kw w)) =
        Some (db_cursor_class cfg) \<and>
      map_option cursorclass (made_cursor w (fetch_one fuel cfg e cur args kw w)) =
        Some (db_cursor_class cfg) \<and>
      map_option cursorclass (made_cursor w (fetch_all fuel cfg e cur args kw w)) =
        Some (db_cursor_class cfg) \<and>
      map_option cursorclass (made_cursor w (fetch_n fuel cfg e cur n args kw w)) =
        Some (db_cursor_class cfg) \<and>
      map_option cursorclass (made_cursor w (yield_rows fuel cfg e cur args kw w)) =
        Some (db_cursor_class cfg) \<and>
      map_option cursorclass (made_cursor w (yield_objects fuel cfg e cur args kw w)) =
        Some (db_cursor_class cfg)"
  proof
    assume mk: "makes_cursor fuel cfg e cur kw w"
    note h = helper_made_class[OF mk]
    show "map_option cursorclass (made_cursor w (fetch_value fuel cfg e cur args kw w)) =
        Some (default_cursorclass e) \<and>
      map_option cursorclass (made_cursor w (fetch_values fuel cfg e cur args kw w)) =
        Some (default_cursorclass e) \<and>
      map_option cursorclass (made_cursor w (yield_values fuel cfg e cur args kw w)) =
        Some (default_cursorclass e) \<and>
      map_option cursorclass (made_cursor w (execute fuel cfg e cur args kw w)) =
        Some (db_cursor_class cfg) \<and>
      map_option cursorclass (made_cursor w (fetch_one fuel cfg e cur args kw w)) =
        Some (db_cursor_class cfg) \<and>
      map_option cursorclass (made_cursor w (fetch_all fuel cfg e cur args kw w)) =
        Some (db_cursor_class cfg) \<and>
      map_option cursorclass (made_cursor w (fetch_n fuel cfg e cur n args kw w)) =
        Some (db_cursor_class cfg) \<and>
      map_option cursorclass (made_cursor w (yield_rows fuel cfg e cur args kw w)) =
        Some (db_cursor_class cfg) \<and>
      map_option cursorclass (made_cursor w (yield_objects fuel cfg e cur args kw w)) =
        Some (db_cursor_class cfg)"
      unfolding fetch_value_def fetch_values_def yield_values_def execute_def fetch_one_def
        fetch_all_def fetch_n_def yield_rows_def yield_objects_def
      using h[of "fetch_value_body e args" None, OF fetch_value_body_classes]
        h[of "fetch_values_body e args" None, OF fetch_values_body_classes]
        h[of "yield_values_body e args" None, OF yield_values_body_classes]
        h[of "execute_body e args" "Some (db_cursor_class cfg)", OF execute_body_classes]
        h[of "fetch_one_body e args" "Some (db_cursor_class cfg)", OF fetch_one_body_classes]
        h[of "fetch_all_body e args" "Some (db_cursor_class cfg)", OF fetch_all_body_classes]
        h[of "fetch_n_body n e args" "Some (db_cursor_class cfg)", OF fetch_n_body_classes]
        h[of "yield_objects_body e args" "Some (db_cursor_class cfg)", OF yield_objects_body_classes]
      by simp
  qed
  have positional: "makes_cursor fuel cfg e cur kw w \<longrightarrow> default_cursorclass e = Cursor \<longrightarrow>
    (\<forall>kw'. run_statement e args kw' = Inr rs) \<longrightarrow>
    rs_count rs = int (length (rs_rows rs)) \<longrightarrow>
    (\<forall>vals \<in> set (rs_rows rs). length vals > 1) \<longrightarrow>
      (\<exists>w2. fetch_values fuel cfg e cur args kw w =
               Some (Returned (map PTuple (rs_rows rs)), w2)) \<and>
      (\<exists>w2. yield_values fuel cfg e cur args kw w =
               Some (Returned (map PTuple (rs_rows rs)), w2)) \<and>
      (rs_rows rs \<noteq> [] \<longrightarrow>
         (\<exists>w2. fetch_value fuel cfg e cur args kw w =
                  Some (Returned (PTuple (hd (rs_rows rs))), w2)))"
  proof (intro impI)
    assume mk: "makes_cursor fuel cfg e cur kw w" and dc: "default_cursorclass e = Cursor"
      and run: "\<forall>kw'. run_statement e args kw' = Inr rs"
      and cnt: "rs_count rs = int (length (rs_rows rs))"
      and multi: "\<forall>vals \<in> set (rs_rows rs). length vals > 1"
    from makes_cursor_get_cursor[OF mk, of None] dc obtain kw' w1 where
      g': "get_cursor fuel cfg e cur None kw w =
             Some (Returned (Some (next_cursor w), next_cursor w, kw'), w1)"
      and cl: "cursorclass (cursors w1 (next_cursor w)) = Cursor"
      by auto
    from run have r0: "run_statement e args no_kwargs = Inr rs"
      and r1: "run_statement e args kw' = Inr rs" by auto
    from multi have m: "map scalar_or_row (rs_rows rs) = map PTuple (rs_rows rs)"
      by (auto simp: scalar_or_row_def)
    have fv: "rs_rows rs \<noteq> [] \<longrightarrow> (\<exists>w2. fetch_value fuel cfg e cur args kw w =
                  Some (Returned (PTuple (hd (rs_rows rs))), w2))"
    proof
      assume ne: "rs_rows rs \<noteq> []"
      then obtain vals others where r: "rs_rows rs = vals # others" by (cases "rs_rows rs") auto
      with cnt have c0: "rs_count rs \<noteq> 0" by simp
      from multi r have "scalar_or_row vals = PTuple vals" by (auto simp: scalar_or_row_def)
      with fetch_value_first[OF g' r0 c0 r cl] r
      show "\<exists>w2. fetch_value fuel cfg e cur args kw w =
                  Some (Returned (PTuple (hd (rs_rows rs))), w2)" by simp
    qed
    from fetch_values_all[OF g' r0 cnt cl] yield_values_all[OF g' r1 cnt cl] m fv
    show "(\<exists>w2. fetch_values fuel cfg e cur args kw w =
               Some (Returned (map PTuple (rs_rows rs)), w2)) \<and>
      (\<exists>w2. yield_values fuel cfg e cur args kw w =
               Some (Returned (map PTuple (rs_rows rs)), w2)) \<and>
      (rs_rows rs \<noteq> [] \<longrightarrow>
         (\<exists>w2. fetch_value fuel cfg e cur args kw w =
                  Some (Returned (PTuple (hd (rs_rows rs))), w2)))" by simp
  qed
  from indep classes positional show ?thesis by simp
qed

lemma dict2obj_elems_map: "dict2obj_elems xs = map convert_element xs"
  by (induction xs) (simp_all add: convert_element_def)

lemma dict2obj_loop_step:
  "dict2obj_loop ((k, v) # rest) cls = dict2obj_loop rest (AList.update k (attribute_for v) cls)"
  by (cases v) (simp_all add: attribute_for_def dict2obj_elems_map)

lemma dict2obj_loop_lookup:
  "distinct (map fst items) \<Longrightarrow>
     map_of (dict2obj_loop items cls) k =
       (case map_of items k of Some v \<Rightarrow> Some (attribute_for v) | None \<Rightarrow> map_of cls k)"
proof (induction items arbitrary: cls)
  case Nil
  then show ?case by simp
next
  case (Cons a items)
  obtain k1 v1 where a: "a = (k1, v1)" by (cases a)
  from Cons.prems a have d: "distinct (map fst items)" and nin: "k1 \<notin> fst ` set items" by auto
  from nin have none: "map_of items k1 = None" by (simp add: map_of_eq_None_iff)
  show ?case
    unfolding a dict2obj_loop_step
    using Cons.IH[OF d, of "AList.update k1 (attribute_for v1) cls"] none
    by (auto simp: update_conv' split: option.splits)
qed

text \<open>
  Claim C8. For a dictionary \<open>d\<close> (its keys distinct) and a key \<open>k\<close> with value \<open>v\<close>, the
  attribute \<open>k\<close> of \<open>dict2obj d\<close> is \<open>dict2obj\<close> of \<open>v\<close> when \<open>v\<close> is a dictionary, a
  tuple, list, set or frozenset with the dictionaries among its elements converted and the
  other elements as they are when \<open>v\<close> is such a collection, and \<open>v\<close> itself otherwise.
\<close>

theorem dict2obj_attributes:
  assumes "distinct (map fst d)" and "map_of d k = Some v"
  shows "getattr (dict2obj d) k = Some (attribute_for v)"
  using dict2obj_loop_lookup[OF assms(1), of d k] assms(2) by simp

section \<open>The properties at concrete inputs\<close>

lemma first_call:
  "get_connection 1 example_config example_env 1 init_state = Some (Returned 100, after_first_call)"
  by (simp add: get_connection_def init_state_def resolve_and_finish_def resolve_def
      connect_and_store_def example_env_def after_first_call_def Let_def)

theorem pool_invariant_witness:
  "reachable init_state \<and> pool_inv init_state \<and>
   get_connection 1 example_config example_env 1 init_state = Some (Returned 100, after_first_call) \<and>
   pool_inv after_first_call \<and>
   close_connections example_env init_state = (None, init_state) \<and>
   dict_keys (db_connection_activity after_first_call) = {1} \<and>
   dict_keys (db_connection_pool after_first_call) = {1}"
proof -
  have r: "reachable init_state" by (rule reach_init)
  have c: "close_connections example_env init_state = (None, init_state)"
    by (simp add: close_connections_def init_state_def)
  have k: "dict_keys (db_connection_activity after_first_call) = {1}"
    "dict_keys (db_connection_pool after_first_call) = {1}"
    by (simp_all add: after_first_call_def dict_keys_def)
  from pool_invariant[of init_state 1 example_config example_env 1 "Returned 100"
      after_first_call None init_state] r first_call c k
  show ?thesis by simp
qed

theorem eviction_sweep_first_witness:
  "\<not> lock_held example_pool \<and> pool_wf example_pool \<and>
   stale example_config example_env 1 0 \<and> stale example_config example_env 3 990 \<and>
   \<not> stale example_config example_env 2 950 \<and>
   (\<exists>s1. sweep example_env 400 (db_connection_activity example_pool)
            (example_pool\<lparr>lock_held := True\<rparr>) = (None, s1) \<and>
         get_connection 1 example_config example_env 2 example_pool =
           resolve_and_finish 1 example_env 2 s1 \<and>
         1 \<notin> dict_keys (db_connection_pool s1) \<and> 1 \<notin> dict_keys (db_connection_activity s1) \<and>
         3 \<notin> dict_keys (db_connection_pool s1) \<and> 3 \<notin> dict_keys (db_connection_activity s1) \<and>
         10 \<in> set (closed s1) \<and> 30 \<in> set (closed s1))"
proof -
  have h1: "\<not> lock_held example_pool" by (simp add: example_pool_def)
  have h2: "pool_wf example_pool" by (simp add: pool_wf_def example_pool_def dict_keys_def)
  have h3: "\<forall>th thtime c. (th, thtime) \<in> set (db_connection_activity example_pool) \<longrightarrow>
       stale example_config example_env th thtime \<longrightarrow>
       map_of (db_connection_pool example_pool) th = Some c \<longrightarrow> close_raises example_env c = None"
    by (simp add: example_env_def)
  have st: "stale example_config example_env 1 0" "stale example_config example_env 3 990"
    "\<not> stale example_config example_env 2 950"
    by (simp_all add: stale_def example_config_def example_env_def)
  have t: "time_now example_env - db_connection_timeout example_config = 400"
    by (simp add: example_config_def example_env_def)
  have m: "(1, 0) \<in> set (db_connection_activity example_pool)"
    "(3, 990) \<in> set (db_connection_activity example_pool)"
    "map_of (db_connection_pool example_pool) 1 = Some 10"
    "map_of (db_connection_pool example_pool) 3 = Some 30"
    by (simp_all add: example_pool_def)
  from eviction_sweep_first[OF h1 h2 h3, of 1 2] obtain s1 where
    sw: "sweep example_env 400 (db_connection_activity example_pool)
            (example_pool\<lparr>lock_held := True\<rparr>) = (None, s1)"
    and g: "get_connection 1 example_config example_env 2 example_pool =
           resolve_and_finish 1 example_env 2 s1"
    and ev: "\<forall>th thtime. (th, thtime) \<in> set (db_connection_activity example_pool) \<and>
               stale example_config example_env th thtime \<longrightarrow>
                 th \<notin> dict_keys (db_connection_pool s1) \<and>
                 th \<notin> dict_keys (db_connection_activity s1) \<and>
                 (\<exists>c. map_of (db_connection_pool example_pool) th = Some c \<and> c \<in> set (closed s1))"
    unfolding t by blast
  from ev[rule_format, of 1 0] ev[rule_format, of 3 990] st m
  have "1 \<notin> dict_keys (db_connection_pool s1) \<and> 1 \<notin> dict_keys (db_connection_activity s1) \<and>
         3 \<notin> dict_keys (db_connection_pool s1) \<and> 3 \<notin> dict_keys (db_connection_activity s1) \<and>
         10 \<in> set (closed s1) \<and> 30 \<in> set (closed s1)"
    by simp
  with h1 h2 st sw g show ?thesis by blast
qed

theorem close_connections_keeps_maps_witness:
  "close_raises example_env 10 = None \<and> close_raises example_env 20 = None \<and>
   close_raises example_env 30 = None \<and>
   close_connections example_env example_pool = (None, example_pool\<lparr>closed := [10, 20, 30]\<rparr>)"
proof -
  have h: "\<forall>(t, c) \<in> set (db_connection_pool example_pool). close_raises example_env c = None"
    by (simp add: example_env_def)
  from close_connections_keeps_maps[of example_env example_pool "isAlive example_env"] h
  show ?thesis by (simp add: example_pool_def example_env_def)
qed


theorem get_connection_twice_witness:
  "pool_wf init_state \<and>
   get_connection 1 example_config example_env 1 init_state = Some (Returned 100, after_first_call) \<and>
   isAlive later_env 1 \<and>
   time_now later_env - time_now example_env < db_connection_timeout example_config \<and>
   (\<exists>s2. get_connection (Suc 0) example_config later_env 1 after_first_call = Some (Returned 100, s2))"
proof -
  have h1: "pool_wf init_state" by (simp add: pool_wf_def init_state_def dict_keys_def)
  have h3: "isAlive later_env 1" by (simp add: later_env_def example_env_def)
  have h4: "time_now later_env - time_now example_env < db_connection_timeout example_config"
    by (simp add: later_env_def example_env_def example_config_def)
  have h5: "ping_raises later_env 100 = None" by (simp add: later_env_def example_env_def)
  have h6: "\<forall>c'. close_raises later_env c' = None" by (simp add: later_env_def example_env_def)
  from get_connection_twice[OF h1 first_call h3 h4 h5 h6, of 0] h1 first_call h3 h4
  show ?thesis by blast
qed

lemma ex_d: "distinct (map fst example_row)"
  by (simp add: example_row_def)

theorem dict2obj_attributes_witness:
  "distinct (map fst example_row) \<and>
   map_of example_row ''tags'' = Some (PList [PDict [(''a'', PInt 1)], PInt 2]) \<and>
   getattr (dict2obj example_row) ''tags'' = Some (PList [PObj [(''a'', PInt 1)], PInt 2]) \<and>
   getattr (dict2obj example_row) ''nested'' = Some (PObj [(''x'', PStr ''y'')]) \<and>
   getattr (dict2obj example_row) ''row_int'' = Some (PInt 100)"
proof -
  have m: "map_of example_row ''tags'' = Some (PList [PDict [(''a'', PInt 1)], PInt 2])"
    "map_of example_row ''nested'' = Some (PDict [(''x'', PStr ''y'')])"
    "map_of example_row ''row_int'' = Some (PInt 100)"
    by (simp_all add: example_row_def)
  from dict2obj_attributes[OF ex_d m(1)] dict2obj_attributes[OF ex_d m(2)]
    dict2obj_attributes[OF ex_d m(3)] ex_d m
  show ?thesis by (simp add: attribute_for_def convert_element_def)
qed

lemmas helper_defs =
  execute_def fetch_one_def fetch_all_def fetch_n_def fetch_value_def fetch_values_def
  yield_values_def yield_rows_def yield_objects_def
  execute_body_def fetch_one_body_def fetch_all_body_def fetch_n_body_def fetch_value_body_def
  fetch_values_body_def yield_values_body_def yield_objects_body_def
  then_run_def get_cursor_def conn_cursor_def cursor_execute_def cursor_fetchone_def
  close_local_def cursor_close_def shape_row_def row_value_def
  returned_def made_cursor_def locally_owned_def makes_cursor_def no_kwargs_def

lemmas example_defs =
  example_config_def example_env_def example_result_def example_world_def with_connection_def
  failing_env_def one_column_env_def one_column_result_def empty_env_def empty_result_def
  made_by_connection_def select_args_def with_cursor_def

theorem local_cursor_left_open_counterexample:
  "locally_owned (with_connection 5) \<and>
   execute 0 example_config failing_env 1 select_args (with_connection 5) example_world =
     Some (Raised (OtherError 1064), made_by_connection DictCursor) \<and>
   cursor_conn (cursors (made_by_connection DictCursor) 0) = 5 \<and>
   \<not> cursor_closed (cursors (made_by_connection DictCursor) 0) \<and>
   map_option cursor_closed
     (made_cursor example_world
        (execute 0 example_config failing_env 1 select_args (with_connection 5) example_world)) =
     Some False"
  by (simp add: helper_defs example_defs Let_def)

theorem local_cursor_closed_on_return_witness:
  "locally_owned (with_connection 5) \<and>
   returned (execute 0 example_config example_env 1 select_args (with_connection 5) example_world) \<and>
   returned (fetch_one 0 example_config example_env 1 select_args (with_connection 5) example_world) \<and>
   returned (fetch_all 0 example_config example_env 1 select_args (with_connection 5) example_world) \<and>
   returned (fetch_n 0 example_config example_env 1 2 select_args (with_connection 5) example_world) \<and>
   returned (fetch_value 0 example_config example_env 1 select_args (with_connection 5) example_world) \<and>
   returned (fetch_values 0 example_config example_env 1 select_args (with_connection 5) example_world) \<and>
   map_option cursor_closed (made_cursor example_world
     (execute 0 example_config example_env 1 select_args (with_connection 5) example_world)) = Some True \<and>
   map_option cursor_closed (made_cursor example_world
     (fetch_one 0 example_config example_env 1 select_args (with_connection 5) example_world)) = Some True \<and>
   map_option cursor_closed (made_cursor example_world
     (fetch_all 0 example_config example_env 1 select_args (with_connection 5) example_world)) = Some True \<and>
   map_option cursor_closed (made_cursor example_world
     (fetch_n 0 example_config example_env 1 2 select_args (with_connection 5) example_world)) = Some True \<and>
   map_option cursor_closed (made_cursor example_world
     (fetch_value 0 example_config example_env 1 select_args (with_connection 5) example_world)) = Some True \<and>
   map_option cursor_closed (made_cursor example_world
     (fetch_values 0 example_config example_env 1 select_args (with_connection 5) example_world)) = Some True \<and>
   raised (execute 0 example_config failing_env 1 select_args (with_connection 5) example_world) \<and>
   raised (fetch_one 0 example_config failing_env 1 select_args (with_connection 5) example_world) \<and>
   raised (fetch_all 0 example_config failing_env 1 select_args (with_connection 5) example_world) \<and>
   raised (fetch_n 0 example_config failing_env 1 2 select_args (with_connection 5) example_world) \<and>
   raised (fetch_value 0 example_config failing_env 1 select_args (with_connection 5) example_world) \<and>
   raised (fetch_values 0 example_config failing_env 1 select_args (with_connection 5) example_world) \<and>
   map_option cursor_closed (made_cursor example_world
     (execute 0 example_config failing_env 1 select_args (with_connection 5) example_world)) = Some False \<and>
   map_option cursor_closed (made_cursor example_world
     (fetch_one 0 example_config failing_env 1 select_args (with_connection 5) example_world)) = Some False \<and>
   map_option cursor_closed (made_cursor example_world
     (fetch_all 0 example_config failing_env 1 select_args (with_connection 5) example_world)) = Some False \<and>
   map_option cursor_closed (made_cursor example_world
     (fetch_n 0 example_config failing_env 1 2 select_args (with_connection 5) example_world)) = Some False \<and>
   map_option cursor_closed (made_cursor example_world
     (fetch_value 0 example_config failing_env 1 select_args (with_connection 5) example_world)) = Some False \<and>
   map_option cursor_closed (made_cursor example_world
     (fetch_values 0 example_config failing_env 1 select_args (with_connection 5) example_world)) = Some False"
proof -
  have lo: "locally_owned (with_connection 5)"
    by (simp add: locally_owned_def with_connection_def)
  have r: "returned (execute 0 example_config example_env 1 select_args (with_connection 5) example_world)"
    "returned (fetch_one 0 example_config example_env 1 select_args (with_connection 5) example_world)"
    "returned (fetch_all 0 example_config example_env 1 select_args (with_connection 5) example_world)"
    "returned (fetch_n 0 example_config example_env 1 2 select_args (with_connection 5) example_world)"
    "returned (fetch_value 0 example_config example_env 1 select_args (with_connection 5) example_world)"
    "returned (fetch_values 0 example_config example_env 1 select_args (with_connection 5) example_world)"
    by (simp_all add: helper_defs example_defs Let_def eval_nat_numeral)
  have f: "raised (execute 0 example_config failing_env 1 select_args (with_connection 5) example_world)"
    "raised (fetch_one 0 example_config failing_env 1 select_args (with_connection 5) example_world)"
    "raised (fetch_all 0 example_config failing_env 1 select_args (with_connection 5) example_world)"
    "raised (fetch_n 0 example_config failing_env 1 2 select_args (with_connection 5) example_world)"
    "raised (fetch_value 0 example_config failing_env 1 select_args (with_connection 5) example_world)"
    "raised (fetch_values 0 example_config failing_env 1 select_args (with_connection 5) example_world)"
    by (simp_all add: helper_defs raised_def example_defs Let_def)
  have o: "map_option cursor_closed (made_cursor example_world
     (execute 0 example_config failing_env 1 select_args (with_connection 5) example_world)) = Some False"
    "map_option cursor_closed (made_cursor example_world
     (fetch_one 0 example_config failing_env 1 select_args (with_connection 5) example_world)) = Some False"
    "map_option cursor_closed (made_cursor example_world
     (fetch_all 0 example_config failing_env 1 select_args (with_connection 5) example_world)) = Some False"
    "map_option cursor_closed (made_cursor example_world
     (fetch_n 0 example_config failing_env 1 2 select_args (with_connection 5) example_world)) = Some False"
    "map_option cursor_closed (made_cursor example_world
     (fetch_value 0 example_config failing_env 1 select_args (with_connection 5) example_world)) = Some False"
    "map_option cursor_closed (made_cursor example_world
     (fetch_values 0 example_config failing_env 1 select_args (with_connection 5) example_world)) = Some False"
    by (simp_all add: helper_defs example_defs Let_def)
  from local_cursor_closed_on_return[OF lo, where fuel = 0 and cfg = example_config
      and e = example_env and cur = 1 and args = select_args and w = example_world and n = 2]
    local_cursor_closed_on_return[OF lo, where fuel = 0 and cfg = example_config
      and e = failing_env and cur = 1 and args = select_args and w = example_world and n = 2]
    lo r f o
  show ?thesis by simp
qed

lemma get_cursor_example:
  "get_cursor fuel cfg e cur req (with_connection 5) example_world =
     Some (Returned (Some 0, 0, (with_connection 5)\<lparr>kw_connection := None\<rparr>),
           made_by_connection (case req of None \<Rightarrow> default_cursorclass e | Some cc \<Rightarrow> cc))"
  by (simp add: get_cursor_def conn_cursor_def example_defs Let_def)

theorem fetch_n_at_most_n_witness:
  "rs_count example_result = int (length (rs_rows example_result)) \<and>
   (\<exists>w'. fetch_n 0 example_config example_env 1 2 select_args (with_connection 5) example_world =
      Some (Returned [PDict [(''row_int'', PInt 100), (''row_str'', PStr ''a'')],
                      PDict [(''row_int'', PInt 110), (''row_str'', PStr ''aa'')]], w')) \<and>
   (\<exists>w'. fetch_n 0 example_config example_env 1 (- 1) select_args (with_connection 5) example_world =
      Some (Returned [], w')) \<and>
   (\<exists>w'. fetch_n 0 example_config example_env 1 7 select_args (with_connection 5) example_world =
      Some (Returned [PDict [(''row_int'', PInt 100), (''row_str'', PStr ''a'')],
                      PDict [(''row_int'', PInt 110), (''row_str'', PStr ''aa'')],
                      PDict [(''row_int'', PInt 111), (''row_str'', PStr ''aaa'')]], w'))"
proof -
  have g: "get_cursor 0 example_config example_env 1 (Some (db_cursor_class example_config))
             (with_connection 5) example_world =
           Some (Returned (Some 0, 0, (with_connection 5)\<lparr>kw_connection := None\<rparr>),
                 made_by_connection DictCursor)"
    by (simp add: get_cursor_example example_config_def)
  have run: "run_statement example_env select_args ((with_connection 5)\<lparr>kw_connection := None\<rparr>) =
               Inr example_result"
    by (simp add: example_env_def)
  have cnt: "rs_count example_result = int (length (rs_rows example_result))"
    by (simp add: example_result_def)
  have cl: "cursorclass (cursors (made_by_connection DictCursor) 0) = DictCursor"
    by (simp add: made_by_connection_def)
  from fetch_n_at_most_n[OF g run cnt, of 2] fetch_n_at_most_n[OF g run cnt, of "- 1"]
    fetch_n_at_most_n[OF g run cnt, of 7] cnt
  show ?thesis
    unfolding cl by (simp add: example_result_def shape_row_def eval_nat_numeral)
qed

theorem dictionary_row_counterexample:
  "cursorclass (cursors (made_by_connection DictCursor) 0) = DictCursor \<and>
   run_statement one_column_env select_args no_kwargs = Inr one_column_result \<and>
   rs_rows one_column_result = [[PInt 100], [PInt 110]] \<and>
   map_option fst (fetch_value 0 example_config one_column_env 1 select_args (with_cursor 0)
                     (made_by_connection DictCursor)) = Some (Raised KeyError) \<and>
   map_option fst (fetch_values 0 example_config one_column_env 1 select_args (with_cursor 0)
                     (made_by_connection DictCursor)) = Some (Raised KeyError) \<and>
   map_option fst (yield_values 0 example_config one_column_env 1 select_args (with_cursor 0)
                     (made_by_connection DictCursor)) = Some (Raised KeyError)"
  by (simp add: helper_defs example_defs Let_def eval_nat_numeral)

lemma get_cursor_explicit:
  "get_cursor fuel cfg e cur req (with_cursor 0) w =
     Some (Returned (None, 0, (with_cursor 0)\<lparr>kw_cursor := None\<rparr>), w)"
  by (simp add: get_cursor_def with_cursor_def)

theorem single_column_rule_witness:
  "(\<exists>w'. fetch_value 0 example_config one_column_env 1 select_args (with_connection 5) example_world =
      Some (Returned (PInt 100), w')) \<and>
   (\<exists>w'. fetch_values 0 example_config one_column_env 1 select_args (with_connection 5) example_world =
      Some (Returned [PInt 100, PInt 110], w')) \<and>
   (\<exists>w'. yield_values 0 example_config one_column_env 1 select_args (with_connection 5) example_world =
      Some (Returned [PInt 100, PInt 110], w')) \<and>
   (\<exists>w'. fetch_value 0 example_config example_env 1 select_args (with_connection 5) example_world =
      Some (Returned (PTuple [PInt 100, PStr ''a'']), w')) \<and>
   (\<exists>w'. fetch_value 0 example_config empty_env 1 select_args (with_connection 5) example_world =
      Some (Returned PNone, w')) \<and>
   (\<exists>w'. fetch_value 0 example_config example_env 1 select_args (with_cursor 0)
            (made_by_connection DictCursor) =
      Some (Returned (PDict [(''row_int'', PInt 100), (''row_str'', PStr ''a'')]), w')) \<and>
   (\<exists>w'. fetch_values 0 example_config example_env 1 select_args (with_cursor 0)
            (made_by_connection DictCursor) =
      Some (Returned [PDict [(''row_int'', PInt 100), (''row_str'', PStr ''a'')],
                      PDict [(''row_int'', PInt 110), (''row_str'', PStr ''aa'')],
                      PDict [(''row_int'', PInt 111), (''row_str'', PStr ''aaa'')]], w')) \<and>
   (\<exists>w'. fetch_value 0 example_config one_column_env 1 select_args (with_cursor 0)
            (made_by_connection DictCursor) = Some (Raised KeyError, w')) \<and>
   (\<exists>w'. fetch_values 0 example_config one_column_env 1 select_args (with_cursor 0)
            (made_by_connection DictCursor) = Some (Raised KeyError, w')) \<and>
   (\<exists>w'. yield_values 0 example_config one_column_env 1 select_args (with_cursor 0)
            (made_by_connection DictCursor) = Some (Raised KeyError, w'))"
proof -
  have g: "\<And>e. default_cursorclass e = Cursor \<Longrightarrow>
      get_cursor 0 example_config e 1 None (with_connection 5) example_world =
           Some (Returned (Some 0, 0, (with_connection 5)\<lparr>kw_connection := None\<rparr>),
                 made_by_connection Cursor)"
    by (simp add: get_cursor_def conn_cursor_def example_defs Let_def)
  have d: "default_cursorclass one_column_env = Cursor" "default_cursorclass example_env = Cursor"
    "default_cursorclass empty_env = Cursor"
    by (simp_all add: example_defs)
  have cl: "cursorclass (cursors (made_by_connection Cursor) 0) = Cursor"
    "cursorclass (cursors (made_by_connection DictCursor) 0) = DictCursor"
    "cursorclass (cursors (made_by_connection DictCursor) 0) \<noteq> Cursor"
    by (simp_all add: made_by_connection_def)
  have r1: "\<And>kw. run_statement one_column_env select_args kw = Inr one_column_result"
    and r2: "\<And>kw. run_statement example_env select_args kw = Inr example_result"
    and r3: "\<And>kw. run_statement empty_env select_args kw = Inr empty_result"
    by (simp_all add: example_defs)
  note ge = get_cursor_explicit[of 0 example_config _ 1 None "made_by_connection DictCursor"]
  from single_column_rule[OF g[OF d(1)] r1 r1, of "PInt 100" "[PInt 100, PStr ''a'']"]
    single_column_rule[OF g[OF d(2)] r2 r2, of "PInt 100" "[PInt 100, PStr ''a'']"]
    single_column_rule[OF g[OF d(3)] r3 r3, of "PInt 100" "[PInt 100, PStr ''a'']"]
    single_column_rule[OF ge r2 r2, of "PInt 100" "[PInt 100, PStr ''a'']"]
    single_column_rule[OF ge r1 r1, of "PInt 100" "[PInt 100, PStr ''a'']"]
  show ?thesis
    unfolding cl
    by (simp add: one_column_result_def example_result_def empty_result_def scalar_or_row_def)
qed

theorem value_helpers_default_cursor_class_witness:
  "db_cursor_class example_config = DictCursor \<and> default_cursorclass example_env = Cursor \<and>
   makes_cursor 0 example_config example_env 1 (with_connection 5) example_world \<and>
   map_option cursorclass (made_cursor example_world
     (fetch_value 0 example_config example_env 1 select_args (with_connection 5) example_world)) =
     Some Cursor \<and>
   map_option cursorclass (made_cursor example_world
     (fetch_one 0 example_config example_env 1 select_args (with_connection 5) example_world)) =
     Some DictCursor \<and>
   (\<exists>w2. fetch_value 0 example_config example_env 1 select_args (with_connection 5) example_world =
      Some (Returned (PTuple [PInt 100, PStr ''a'']), w2)) \<and>
   (\<exists>w2. fetch_values 0 example_config example_env 1 select_args (with_connection 5) example_world =
      Some (Returned [PTuple [PInt 100, PStr ''a''], PTuple [PInt 110, PStr ''aa''],
                      PTuple [PInt 111, PStr ''aaa'']], w2)) \<and>
   fetch_one 0 example_config example_env 1 select_args (with_connection 5) example_world =
     Some (Returned (PDict [(''row_int'', PInt 100), (''row_str'', PStr ''a'')]),
           cursor_close 0 (example_world\<lparr>cursors := (cursors example_world)
             (0 := \<lparr>cursor_conn = 5, cursorclass = DictCursor,
                    rows_left = [PDict [(''row_int'', PInt 110), (''row_str'', PStr ''aa'')],
                                 PDict [(''row_int'', PInt 111), (''row_str'', PStr ''aaa'')]],
                    cursor_closed = False\<rparr>), next_cursor := Suc 0\<rparr>))"
proof -
  have c: "db_cursor_class example_config = DictCursor" "default_cursorclass example_env = Cursor"
    by (simp_all add: example_defs)
  have mk: "makes_cursor 0 example_config example_env 1 (with_connection 5) example_world"
    by (simp add: makes_cursor_def with_connection_def)
  have run: "\<forall>kw'. run_statement example_env select_args kw' = Inr example_result"
    by (simp add: example_env_def)
  have cnt: "rs_count example_result = int (length (rs_rows example_result))"
    by (simp add: example_result_def)
  have multi: "\<forall>vals \<in> set (rs_rows example_result). length vals > 1"
    by (simp add: example_result_def)
  have ne: "rs_rows example_result \<noteq> []" by (simp add: example_result_def)
  have same: "example_config\<lparr>db_cursor_class := DictCursor\<rparr> = example_config"
    by (simp add: example_config_def)
  have f1: "fetch_one 0 example_config example_env 1 select_args (with_connection 5) example_world =
     Some (Returned (PDict [(''row_int'', PInt 100), (''row_str'', PStr ''a'')]),
           cursor_close 0 (example_world\<lparr>cursors := (cursors example_world)
             (0 := \<lparr>cursor_conn = 5, cursorclass = DictCursor,
                    rows_left = [PDict [(''row_int'', PInt 110), (''row_str'', PStr ''aa'')],
                                 PDict [(''row_int'', PInt 111), (''row_str'', PStr ''aaa'')]],
                    cursor_closed = False\<rparr>), next_cursor := Suc 0\<rparr>))"
    by (simp add: fetch_one_def fetch_one_body_def then_run_def get_cursor_def conn_cursor_def
        cursor_execute_def cursor_fetchone_def close_local_def shape_row_def example_defs Let_def)
  from value_helpers_default_cursor_class[where fuel = 0 and cfg = example_config
      and cc = DictCursor and e = example_env and cur = 1 and args = select_args
      and kw = "with_connection 5" and w = example_world and n = 2 and rs = example_result]
    c mk run cnt multi ne f1
  show ?thesis
    unfolding same by (simp add: example_result_def)
qed

end
